theory Spec2Isabelle
  imports Main "HOL-Library.Product_Lexorder"
begin

section \<open>Data model\<close>

text \<open>
  A board entry is a JavaScript number. The solver only ever compares an entry with
  \<open>0\<close> or with a digit, stores it in a \<open>Set\<close>, or copies it, so an entry is modelled
  as an integer or the value \<open>NaN\<close> (which \<open>parseInt\<close> produces and which \<open>===\<close>
  never finds equal to anything). A fractional entry behaves like an integer outside 0..9.
\<close>

datatype jsnum = Num int | NaN

text \<open>Strict equality \<open>a === b\<close> on numbers.\<close>

definition strictEq :: "jsnum \<Rightarrow> jsnum \<Rightarrow> bool" where
  "strictEq a b = (a \<noteq> NaN \<and> b \<noteq> NaN \<and> a = b)"

text \<open>The relational operators \<open>a < b\<close> and \<open>a > b\<close>: false as soon as one side is \<open>NaN\<close>.\<close>

fun jsLess :: "jsnum \<Rightarrow> jsnum \<Rightarrow> bool" where
  "jsLess (Num a) (Num b) = (a < b)"
| "jsLess _ _ = False"

text \<open>
  A \<open>Set<number>\<close> is the list of its elements in insertion order, without repetition:
  iteration (\<open>[...s]\<close>, \<open>for (const d of s)\<close>) follows that order. Membership and
  deletion use SameValueZero, under which \<open>NaN\<close> equals itself, as HOL equality does.
\<close>

type_synonym jsset = "jsnum list"

definition setAdd :: "jsset \<Rightarrow> jsnum \<Rightarrow> jsset" where
  "setAdd s x = (if x \<in> set s then s else s @ [x])"

definition newSet :: "jsnum list \<Rightarrow> jsset" where
  "newSet xs = foldl setAdd [] xs"

definition setHas :: "jsset \<Rightarrow> jsnum \<Rightarrow> bool" where
  "setHas s x = (x \<in> set s)"

definition setDelete :: "jsset \<Rightarrow> jsnum \<Rightarrow> jsset" where
  "setDelete s x = removeAll x s"

text \<open>A 9x9 grid is an array of row arrays; cells are addressed as \<open>grid[row][col]\<close>.\<close>

definition cellAt :: "'a list list \<Rightarrow> nat \<Rightarrow> nat \<Rightarrow> 'a" where
  "cellAt grid row col = grid ! row ! col"

definition gridSet :: "'a list list \<Rightarrow> nat \<Rightarrow> nat \<Rightarrow> 'a \<Rightarrow> 'a list list" where
  "gridSet grid row col v = grid[row := (grid ! row)[col := v]]"

definition is9x9 :: "'a list list \<Rightarrow> bool" where
  "is9x9 grid = (length grid = 9 \<and> (\<forall>row \<in> set grid. length row = 9))"

definition allCells :: "(nat \<times> nat) list" where
  "allCells = concat (map (\<lambda>row. map (\<lambda>col. (row, col)) [0..<9]) [0..<9])"

type_synonym triple = "nat \<times> nat \<times> jsnum"

record highlight =
  rows :: "nat list option"
  cols :: "nat list option"
  blocks :: "(nat \<times> nat) list option"
  boxes :: "(nat \<times> nat) list option"
  hlCandidates :: "triple list option"
  removedCandidates :: "triple list option"

record sudokuSnapshot =
  snBoard :: "jsnum list list"
  snCandidates :: "jsset list list"
  kind :: string
  variant :: "string option"
  difficulty :: nat
  highlight :: "highlight option"

record sudoku =
  board :: "jsnum list list"
  candidates :: "jsset list list"
  snapshots :: "sudokuSnapshot list"

record solverOptions =
  nakedSingles :: "bool option"
  nakedPairs :: "bool option"
  nakedPairsRows :: "bool option"
  nakedPairsCols :: "bool option"
  nakedPairsBoxes :: "bool option"
  hiddenSingles :: "bool option"
  hiddenSinglesRows :: "bool option"
  hiddenSinglesCols :: "bool option"
  hiddenSinglesBoxes :: "bool option"
  nakedTriples :: "bool option"
  nakedTriplesRows :: "bool option"
  nakedTriplesCols :: "bool option"
  nakedTriplesBoxes :: "bool option"
  hiddenPairs :: "bool option"
  hiddenPairsRows :: "bool option"
  hiddenPairsCols :: "bool option"
  hiddenPairsBoxes :: "bool option"
  boxLineReduction :: "bool option"
  boxLineReductionRows :: "bool option"
  boxLineReductionCols :: "bool option"
  xWing :: "bool option"
  xWingRows :: "bool option"
  xWingCols :: "bool option"

text \<open>
  \<open>opts?.flag === false\<close>: the options object may be absent and so may the flag;
  only an explicit \<open>false\<close> switches a strategy off.
\<close>

definition isOff :: "solverOptions option \<Rightarrow> (solverOptions \<Rightarrow> bool option) \<Rightarrow> bool" where
  "isOff opts flag = (case opts of None \<Rightarrow> False | Some os \<Rightarrow> flag os = Some False)"

datatype error =
  LengthError
  | InvalidCharacter char nat
  | TypeError

section \<open>utils.ts\<close>

text \<open>
  \<open>parseInt(char, 10)\<close> on a string of one character: a decimal digit gives its value,
  every other character gives \<open>NaN\<close>.
\<close>

definition parseInt :: "char \<Rightarrow> jsnum" where
  "parseInt ch = (if ch \<in> set ''0123456789'' then Num (int (of_char ch) - 48) else NaN)"

text \<open>The first error of a sequence of fallible results, or all the values.\<close>

fun collect :: "(error + 'a) list \<Rightarrow> error + 'a list" where
  "collect [] = Inr []"
| "collect (Inl e # _) = Inl e"
| "collect (Inr v # rest) = (case collect rest of Inl e \<Rightarrow> Inl e | Inr vs \<Rightarrow> Inr (v # vs))"

definition parseCell :: "string \<Rightarrow> nat \<Rightarrow> error + jsnum" where
  "parseCell puzzleString index =
     (let ch = puzzleString ! index in
      if ch = CHR ''.'' \<or> ch = CHR ''0'' then Inr (Num 0)
      else let digit = parseInt ch in
        if jsLess digit (Num 1) \<or> jsLess (Num 9) digit then Inl (InvalidCharacter ch index)
        else Inr digit)"

definition stringToBoard :: "string \<Rightarrow> error + jsnum list list" where
  "stringToBoard puzzleString =
     (if length puzzleString \<noteq> 81 then Inl LengthError
      else collect (map (\<lambda>row. collect (map (\<lambda>col. parseCell puzzleString (row * 9 + col)) [0..<9]))
                        [0..<9]))"

definition isComplete :: "jsnum list list \<Rightarrow> bool" where
  "isComplete brd = (\<forall>(row, col) \<in> set allCells. \<not> strictEq (cellAt brd row col) (Num 0))"

definition deepCloneBoard :: "jsnum list list \<Rightarrow> jsnum list list" where
  "deepCloneBoard brd = map (\<lambda>row. row) brd"

definition deepCloneCandidates :: "jsset list list \<Rightarrow> jsset list list" where
  "deepCloneCandidates cands = map (\<lambda>row. map (\<lambda>cellSet. newSet cellSet) row) cands"

definition addSnapshot ::
  "sudoku \<Rightarrow> string \<Rightarrow> string option \<Rightarrow> highlight option \<Rightarrow> nat \<Rightarrow> sudoku" where
  "addSnapshot game knd var hl diff =
     game\<lparr>snapshots := snapshots game @
       [\<lparr>snBoard = deepCloneBoard (board game),
         snCandidates = deepCloneCandidates (candidates game),
         kind = knd, variant = var, difficulty = diff, highlight = hl\<rparr>]\<rparr>"

section \<open>Candidate building and elimination\<close>

definition fullSet :: jsset where
  "fullSet = map Num [1, 2, 3, 4, 5, 6, 7, 8, 9]"

text \<open>\<open>candidates[row][col].delete(digit)\<close> on the candidate grid.\<close>

definition candDelete :: "jsset list list \<Rightarrow> nat \<Rightarrow> nat \<Rightarrow> jsnum \<Rightarrow> jsset list list" where
  "candDelete cands row col digit = gridSet cands row col (setDelete (cellAt cands row col) digit)"

text \<open>
  The peers of a cell in the order the three loops of \<open>eliminateFromPeers\<close> visit them:
  the row, the column, then the 3x3 box.
\<close>

definition peerCells :: "nat \<Rightarrow> nat \<Rightarrow> (nat \<times> nat) list" where
  "peerCells row col =
     (let startRow = row - row mod 3; startCol = col - col mod 3 in
      concat (map (\<lambda>c. if c \<noteq> col then [(row, c)] else []) [0..<9]) @
      concat (map (\<lambda>r. if r \<noteq> row then [(r, col)] else []) [0..<9]) @
      concat (map (\<lambda>r. concat (map (\<lambda>c.
          if startRow + r \<noteq> row \<or> startCol + c \<noteq> col then [(startRow + r, startCol + c)] else [])
        [0..<3])) [0..<3]))"

definition eliminateFromPeers ::
  "jsnum list list \<Rightarrow> jsset list list \<Rightarrow> nat \<Rightarrow> nat \<Rightarrow> jsnum \<Rightarrow> jsset list list" where
  "eliminateFromPeers brd cands row col digit =
     foldl (\<lambda>cs (r, c). if strictEq (cellAt brd r c) (Num 0) then candDelete cs r c digit else cs)
       cands (peerCells row col)"

definition buildCandidates :: "jsnum list list \<Rightarrow> jsset list list" where
  "buildCandidates brd =
     foldl (\<lambda>cs (row, col).
         let val = cellAt brd row col in
         if \<not> strictEq val (Num 0)
         then eliminateFromPeers brd (gridSet cs row col (newSet [val])) row col val
         else cs)
       (replicate 9 (replicate 9 fullSet)) allCells"


section \<open>Loop idioms\<close>

text \<open>
  A strategy takes the session, mutates it in place and returns a flag; in the model it
  takes the session, as its last argument, and returns the flag with the session as it
  leaves it.

  \<open>firstHit\<close> is the loop \<^verbatim>\<open>for (i of items) { if (body(game, i)) return true; } return false;\<close>
  and \<open>scanAll\<close> is the loop
  \<^verbatim>\<open>let changed = false; for (i of items) { if (body(game, i)) changed = true; } return changed;\<close>
  whose state, the flag and the session, is carried by \<open>scanLoop\<close>.
\<close>

fun firstHit :: "('i \<Rightarrow> sudoku \<Rightarrow> bool \<times> sudoku) \<Rightarrow> 'i list \<Rightarrow> sudoku \<Rightarrow> bool \<times> sudoku" where
  "firstHit body [] game = (False, game)"
| "firstHit body (i # rest) game =
     (let res = body i game in
      if fst res then (True, snd res) else firstHit body rest (snd res))"

fun scanLoop ::
  "('i \<Rightarrow> sudoku \<Rightarrow> bool \<times> sudoku) \<Rightarrow> 'i list \<Rightarrow> bool \<times> sudoku \<Rightarrow> bool \<times> sudoku" where
  "scanLoop body [] st = st"
| "scanLoop body (i # rest) st =
     scanLoop body rest (let res = body i (snd st) in (fst st \<or> fst res, snd res))"

definition scanAll :: "('i \<Rightarrow> sudoku \<Rightarrow> bool \<times> sudoku) \<Rightarrow> 'i list \<Rightarrow> sudoku \<Rightarrow> bool \<times> sudoku" where
  "scanAll body items game = scanLoop body items (False, game)"

text \<open>The index pairs \<open>i < j < n\<close> and triples \<open>i < j < k < n\<close> in the order of the nested loops.\<close>

definition indexPairs :: "nat \<Rightarrow> (nat \<times> nat) list" where
  "indexPairs n = concat (map (\<lambda>i. map (\<lambda>j. (i, j)) [i + 1..<n]) [0..<n])"

definition indexTriples :: "nat \<Rightarrow> (nat \<times> nat \<times> nat) list" where
  "indexTriples n =
     concat (map (\<lambda>i. concat (map (\<lambda>j. map (\<lambda>k. (i, j, k)) [j + 1..<n]) [i + 1..<n])) [0..<n])"

text \<open>The cells of a 3x3 box, row by row, from its top left cell or from its box indices.\<close>

definition boxFrom :: "nat \<Rightarrow> nat \<Rightarrow> (nat \<times> nat) list" where
  "boxFrom startRow startCol =
     concat (map (\<lambda>r. map (\<lambda>c. (startRow + r, startCol + c)) [0..<3]) [0..<3])"

definition boxCells :: "nat \<Rightarrow> nat \<Rightarrow> (nat \<times> nat) list" where
  "boxCells boxRow boxCol = boxFrom (boxRow * 3) (boxCol * 3)"

text \<open>
  The elimination idiom shared by the pair, triple, reduction and X-Wing strategies:
  \<^verbatim>\<open>if (game.candidates[r][c].delete(val)) removedCandidates.push([r, c, val]);\<close>
  run over the targets in loop order. The guards that select the targets read the board
  and loop-invariant locals only, so the targets are collected first.
\<close>

fun deleteEach ::
  "triple list \<Rightarrow> jsset list list \<Rightarrow> triple list \<Rightarrow> jsset list list \<times> triple list" where
  "deleteEach [] cands removed = (cands, removed)"
| "deleteEach ((r, c, d) # rest) cands removed =
     (if setHas (cellAt cands r c) d
      then deleteEach rest (candDelete cands r c d) (removed @ [(r, c, d)])
      else deleteEach rest cands removed)"

text \<open>
  What follows the elimination loop in every such strategy: the snapshot is recorded only
  when \<open>removedCandidates.length > 0\<close>, and that is also when the step reports a change.
\<close>

definition eliminateAndRecord ::
  "triple list \<Rightarrow> string \<Rightarrow> string \<Rightarrow> nat \<Rightarrow> (jsset list list \<Rightarrow> triple list \<Rightarrow> highlight) \<Rightarrow>
   sudoku \<Rightarrow> bool \<times> sudoku" where
  "eliminateAndRecord targets knd var diff mkHighlight game =
     (case deleteEach targets (candidates game) [] of (cands', removed) \<Rightarrow>
        let game' = game\<lparr>candidates := cands'\<rparr> in
        if length removed > 0
        then (True, addSnapshot game' knd (Some var) (Some (mkHighlight cands' removed)) diff)
        else (False, game'))"

text \<open>The digit of a loop \<open>for (let digit = 1; digit <= 9; digit++)\<close> as a board value.\<close>

definition digitNum :: "nat \<Rightarrow> jsnum" where
  "digitNum d = Num (int d)"

text \<open>The template literal \<^verbatim>\<open>`${digit}`\<close>.\<close>

fun showNat :: "nat \<Rightarrow> string" where
  "showNat n = (if n < 10 then [char_of (48 + n)] else showNat (n div 10) @ [char_of (48 + n mod 10)])"

fun showNum :: "jsnum \<Rightarrow> string" where
  "showNum NaN = ''NaN''"
| "showNum (Num i) = (if i < 0 then ''-'' @ showNat (nat (- i)) else showNat (nat i))"

text \<open>
  A placement, as the singles strategies make it: \<open>game.board[row][col] = digit\<close>,
  then \<open>eliminateFromPeers(game, row, col, digit)\<close>.
\<close>

definition place :: "sudoku \<Rightarrow> nat \<Rightarrow> nat \<Rightarrow> jsnum \<Rightarrow> sudoku" where
  "place game row col digit =
     game\<lparr>board := gridSet (board game) row col digit,
          candidates := eliminateFromPeers (gridSet (board game) row col digit)
                          (candidates game) row col digit\<rparr>"

section \<open>Naked singles\<close>

definition nakedSingleAt :: "nat \<times> nat \<Rightarrow> sudoku \<Rightarrow> bool \<times> sudoku" where
  "nakedSingleAt cell game =
     (case cell of (row, col) \<Rightarrow>
        if strictEq (cellAt (board game) row col) (Num 0)
           \<and> length (cellAt (candidates game) row col) = 1
        then let digit = cellAt (candidates game) row col ! 0 in
          (True, addSnapshot (place game row col digit) ''Naked Single'' (Some (showNum digit))
             (Some \<lparr>rows = None, cols = None, blocks = Some [(row, col)], boxes = None,
                    hlCandidates = None, removedCandidates = None\<rparr>) 1)
        else (False, game))"

definition applyNakedSingles :: "solverOptions option \<Rightarrow> sudoku \<Rightarrow> bool \<times> sudoku" where
  "applyNakedSingles opts game =
     (if isOff opts nakedSingles then (False, game) else scanAll nakedSingleAt allCells game)"

section \<open>Hidden singles\<close>

definition isDigitInRow :: "jsnum list list \<Rightarrow> nat \<Rightarrow> jsnum \<Rightarrow> bool" where
  "isDigitInRow brd row digit = (\<exists>col \<in> set [0..<9]. strictEq (cellAt brd row col) digit)"

definition isDigitInCol :: "jsnum list list \<Rightarrow> nat \<Rightarrow> jsnum \<Rightarrow> bool" where
  "isDigitInCol brd col digit = (\<exists>row \<in> set [0..<9]. strictEq (cellAt brd row col) digit)"

definition isDigitInBox :: "jsnum list list \<Rightarrow> nat \<Rightarrow> nat \<Rightarrow> jsnum \<Rightarrow> bool" where
  "isDigitInBox brd boxRow boxCol digit =
     (\<exists>(r, c) \<in> set (boxCells boxRow boxCol). strictEq (cellAt brd r c) digit)"

text \<open>The cells of a unit where \<open>digit\<close> is still possible: empty, with the digit a candidate.\<close>

definition possibleAt :: "sudoku \<Rightarrow> jsnum \<Rightarrow> nat \<times> nat \<Rightarrow> bool" where
  "possibleAt game digit cell =
     (case cell of (r, c) \<Rightarrow>
        strictEq (cellAt (board game) r c) (Num 0) \<and> setHas (cellAt (candidates game) r c) digit)"

definition hiddenSingleInRow :: "nat \<times> nat \<Rightarrow> sudoku \<Rightarrow> bool \<times> sudoku" where
  "hiddenSingleInRow rd game =
     (case rd of (row, d) \<Rightarrow>
        if isDigitInRow (board game) row (digitNum d) then (False, game)
        else let possibleCols = filter (\<lambda>col. possibleAt game (digitNum d) (row, col)) [0..<9] in
          if length possibleCols = 1
          then let col = possibleCols ! 0 in
            (True, addSnapshot (place game row col (digitNum d)) ''Hidden Single'' (Some ''Row'')
               (Some \<lparr>rows = Some [row], cols = None, blocks = Some [(row, col)], boxes = None,
                      hlCandidates = None, removedCandidates = None\<rparr>) 3)
          else (False, game))"

definition hiddenSingleInColumn :: "nat \<times> nat \<Rightarrow> sudoku \<Rightarrow> bool \<times> sudoku" where
  "hiddenSingleInColumn cd game =
     (case cd of (col, d) \<Rightarrow>
        if isDigitInCol (board game) col (digitNum d) then (False, game)
        else let possibleRows = filter (\<lambda>row. possibleAt game (digitNum d) (row, col)) [0..<9] in
          if length possibleRows = 1
          then let row = possibleRows ! 0 in
            (True, addSnapshot (place game row col (digitNum d)) ''Hidden Single'' (Some ''Column'')
               (Some \<lparr>rows = None, cols = Some [col], blocks = Some [(row, col)], boxes = None,
                      hlCandidates = None, removedCandidates = None\<rparr>) 3)
          else (False, game))"

definition hiddenSingleInBox :: "(nat \<times> nat) \<times> nat \<Rightarrow> sudoku \<Rightarrow> bool \<times> sudoku" where
  "hiddenSingleInBox bd game =
     (case bd of ((boxRow, boxCol), d) \<Rightarrow>
        if isDigitInBox (board game) boxRow boxCol (digitNum d) then (False, game)
        else let possibleCells = filter (possibleAt game (digitNum d)) (boxCells boxRow boxCol) in
          if length possibleCells = 1
          then (case possibleCells ! 0 of (r, c) \<Rightarrow>
            (True, addSnapshot (place game r c (digitNum d)) ''Hidden Single'' (Some ''Box'')
               (Some \<lparr>rows = None, cols = None, blocks = Some [(r, c)],
                      boxes = Some [(boxRow, boxCol)],
                      hlCandidates = None, removedCandidates = None\<rparr>) 3))
          else (False, game))"

text \<open>The pairs \<open>(unit, digit)\<close> in the order of the loops: units outside, digits 1..9 inside.\<close>

definition unitDigits :: "'u list \<Rightarrow> ('u \<times> nat) list" where
  "unitDigits units = concat (map (\<lambda>u. map (\<lambda>d. (u, d)) [1..<10]) units)"

definition allBoxes :: "(nat \<times> nat) list" where
  "allBoxes = concat (map (\<lambda>br. map (\<lambda>bc. (br, bc)) [0..<3]) [0..<3])"

definition applyHiddenSinglesInRows :: "sudoku \<Rightarrow> bool \<times> sudoku" where
  "applyHiddenSinglesInRows game = firstHit hiddenSingleInRow (unitDigits [0..<9]) game"

definition applyHiddenSinglesInColumns :: "sudoku \<Rightarrow> bool \<times> sudoku" where
  "applyHiddenSinglesInColumns game = firstHit hiddenSingleInColumn (unitDigits [0..<9]) game"

definition applyHiddenSinglesInBoxes :: "sudoku \<Rightarrow> bool \<times> sudoku" where
  "applyHiddenSinglesInBoxes game = firstHit hiddenSingleInBox (unitDigits allBoxes) game"

text \<open>
  The dispatchers have the shape
  \<^verbatim>\<open>if (opts?.flagA !== false && stepA(game)) return true; ... return false;\<close>
  which is \<open>firstHit\<close> over the list of gated steps: a step whose flag is off is not run.
\<close>

definition gated ::
  "solverOptions option \<Rightarrow> (solverOptions \<Rightarrow> bool option) \<times> (sudoku \<Rightarrow> bool \<times> sudoku) \<Rightarrow>
   sudoku \<Rightarrow> bool \<times> sudoku" where
  "gated opts gs game = (case gs of (flag, step) \<Rightarrow> if isOff opts flag then (False, game) else step game)"

definition applyHiddenSingles :: "solverOptions option \<Rightarrow> sudoku \<Rightarrow> bool \<times> sudoku" where
  "applyHiddenSingles opts game =
     (if isOff opts hiddenSingles then (False, game)
      else firstHit (gated opts)
        [(hiddenSinglesBoxes, applyHiddenSinglesInBoxes),
         (hiddenSinglesRows, applyHiddenSinglesInRows),
         (hiddenSinglesCols, applyHiddenSinglesInColumns)] game)"


section \<open>Naked pairs\<close>

definition areSetsEqual :: "jsset \<Rightarrow> jsset \<Rightarrow> bool" where
  "areSetsEqual a b = (if length a \<noteq> length b then False else (\<forall>x \<in> set a. setHas b x))"

definition isEmptyCell :: "sudoku \<Rightarrow> nat \<times> nat \<Rightarrow> bool" where
  "isEmptyCell game cell = (case cell of (r, c) \<Rightarrow> strictEq (cellAt (board game) r c) (Num 0))"

definition nakedPairInRow :: "nat \<Rightarrow> nat list \<Rightarrow> nat \<times> nat \<Rightarrow> sudoku \<Rightarrow> bool \<times> sudoku" where
  "nakedPairInRow row emptyCols ij game =
     (case ij of (i, j) \<Rightarrow>
        let col1 = emptyCols ! i; col2 = emptyCols ! j;
            cands1 = cellAt (candidates game) row col1;
            cands2 = cellAt (candidates game) row col2 in
        if length cands1 = 2 \<and> length cands2 = 2 \<and> areSetsEqual cands1 cands2
        then let pairValues = cands1 in
          eliminateAndRecord
            (concat (map (\<lambda>c. if c \<noteq> col1 \<and> c \<noteq> col2 \<and> isEmptyCell game (row, c)
                               then map (\<lambda>val. (row, c, val)) pairValues else []) [0..<9]))
            ''Naked Pair'' ''Row'' 2
            (\<lambda>cands' removed.
               \<lparr>rows = Some [row], cols = None, blocks = Some [(row, col1), (row, col2)],
                boxes = None,
                hlCandidates = Some [(row, col1, pairValues ! 0), (row, col1, pairValues ! 1),
                                     (row, col2, pairValues ! 0), (row, col2, pairValues ! 1)],
                removedCandidates = Some removed\<rparr>)
            game
        else (False, game))"

definition applyNakedPairsInRow :: "nat \<Rightarrow> sudoku \<Rightarrow> bool \<times> sudoku" where
  "applyNakedPairsInRow row game =
     (let emptyCols = filter (\<lambda>col. isEmptyCell game (row, col)) [0..<9] in
      firstHit (nakedPairInRow row emptyCols) (indexPairs (length emptyCols)) game)"

definition nakedPairInCol :: "nat \<Rightarrow> nat list \<Rightarrow> nat \<times> nat \<Rightarrow> sudoku \<Rightarrow> bool \<times> sudoku" where
  "nakedPairInCol col emptyRows ij game =
     (case ij of (i, j) \<Rightarrow>
        let row1 = emptyRows ! i; row2 = emptyRows ! j;
            cands1 = cellAt (candidates game) row1 col;
            cands2 = cellAt (candidates game) row2 col in
        if length cands1 = 2 \<and> length cands2 = 2 \<and> areSetsEqual cands1 cands2
        then let pairValues = cands1 in
          eliminateAndRecord
            (concat (map (\<lambda>r. if r \<noteq> row1 \<and> r \<noteq> row2 \<and> isEmptyCell game (r, col)
                               then map (\<lambda>val. (r, col, val)) pairValues else []) [0..<9]))
            ''Naked Pair'' ''Column'' 2
            (\<lambda>cands' removed.
               \<lparr>rows = None, cols = Some [col], blocks = Some [(row1, col), (row2, col)],
                boxes = None,
                hlCandidates = Some [(row1, col, pairValues ! 0), (row1, col, pairValues ! 1),
                                     (row2, col, pairValues ! 0), (row2, col, pairValues ! 1)],
                removedCandidates = Some removed\<rparr>)
            game
        else (False, game))"

definition applyNakedPairsInCol :: "nat \<Rightarrow> sudoku \<Rightarrow> bool \<times> sudoku" where
  "applyNakedPairsInCol col game =
     (let emptyRows = filter (\<lambda>row. isEmptyCell game (row, col)) [0..<9] in
      firstHit (nakedPairInCol col emptyRows) (indexPairs (length emptyRows)) game)"

definition nakedPairInBox ::
  "nat \<times> nat \<Rightarrow> (nat \<times> nat) list \<Rightarrow> nat \<times> nat \<Rightarrow> sudoku \<Rightarrow> bool \<times> sudoku" where
  "nakedPairInBox box cells ij game =
     (case ij of (i, j) \<Rightarrow>
        let cell1 = cells ! i; cell2 = cells ! j;
            cands1 = cellAt (candidates game) (fst cell1) (snd cell1);
            cands2 = cellAt (candidates game) (fst cell2) (snd cell2) in
        if length cands1 = 2 \<and> length cands2 = 2 \<and> areSetsEqual cands1 cands2
        then let pairValues = cands1 in
          eliminateAndRecord
            (concat (map (\<lambda>k. if k \<noteq> i \<and> k \<noteq> j
                               then map (\<lambda>val. (fst (cells ! k), snd (cells ! k), val)) pairValues
                               else []) [0..<length cells]))
            ''Naked Pair'' ''Box'' 2
            (\<lambda>cands' removed.
               \<lparr>rows = None, cols = None, blocks = Some [cell1, cell2], boxes = Some [box],
                hlCandidates =
                  Some [(fst cell1, snd cell1, pairValues ! 0), (fst cell1, snd cell1, pairValues ! 1),
                        (fst cell2, snd cell2, pairValues ! 0), (fst cell2, snd cell2, pairValues ! 1)],
                removedCandidates = Some removed\<rparr>)
            game
        else (False, game))"

definition applyNakedPairsInBox :: "nat \<times> nat \<Rightarrow> sudoku \<Rightarrow> bool \<times> sudoku" where
  "applyNakedPairsInBox box game =
     (let cells = filter (isEmptyCell game) (boxCells (fst box) (snd box)) in
      firstHit (nakedPairInBox box cells) (indexPairs (length cells)) game)"

definition applyNakedPairs :: "solverOptions option \<Rightarrow> sudoku \<Rightarrow> bool \<times> sudoku" where
  "applyNakedPairs opts game =
     (if isOff opts nakedPairs then (False, game)
      else firstHit (gated opts)
        [(nakedPairsRows, firstHit applyNakedPairsInRow [0..<9]),
         (nakedPairsCols, firstHit applyNakedPairsInCol [0..<9]),
         (nakedPairsBoxes, firstHit applyNakedPairsInBox allBoxes)] game)"

section \<open>Naked triples\<close>

definition isSubset :: "jsset \<Rightarrow> jsset \<Rightarrow> bool" where
  "isSubset setA setB = (\<forall>x \<in> set setA. setHas setB x)"

text \<open>
  The test of the three variants and the \<open>candidates\<close> entry of their highlight; the
  three candidate sets are read again when the snapshot is built, after the eliminations.
\<close>

definition isNakedTriple :: "jsset \<Rightarrow> jsset \<Rightarrow> jsset \<Rightarrow> bool" where
  "isNakedTriple cands1 cands2 cands3 =
     (let union = newSet (cands1 @ cands2 @ cands3) in
      length union = 3 \<and> isSubset cands1 union \<and> isSubset cands2 union \<and> isSubset cands3 union)"

definition tripleCandidates :: "jsset list list \<Rightarrow> (nat \<times> nat) list \<Rightarrow> triple list" where
  "tripleCandidates cands cells =
     concat (map (\<lambda>(r, c). map (\<lambda>d. (r, c, d)) (cellAt cands r c)) cells)"

definition nakedTripleInRow ::
  "nat \<Rightarrow> nat list \<Rightarrow> nat \<times> nat \<times> nat \<Rightarrow> sudoku \<Rightarrow> bool \<times> sudoku" where
  "nakedTripleInRow row emptyCols ijk game =
     (case ijk of (i, j, k) \<Rightarrow>
        let col1 = emptyCols ! i; col2 = emptyCols ! j; col3 = emptyCols ! k;
            cands1 = cellAt (candidates game) row col1;
            cands2 = cellAt (candidates game) row col2;
            cands3 = cellAt (candidates game) row col3 in
        if isNakedTriple cands1 cands2 cands3
        then let tripleValues = newSet (cands1 @ cands2 @ cands3) in
          eliminateAndRecord
            (concat (map (\<lambda>c. if c \<noteq> col1 \<and> c \<noteq> col2 \<and> c \<noteq> col3 \<and> isEmptyCell game (row, c)
                               then map (\<lambda>val. (row, c, val)) tripleValues else []) [0..<9]))
            ''Naked Triple'' ''Row'' 4
            (\<lambda>cands' removed.
               \<lparr>rows = Some [row], cols = None,
                blocks = Some [(row, col1), (row, col2), (row, col3)], boxes = None,
                hlCandidates = Some (tripleCandidates cands' [(row, col1), (row, col2), (row, col3)]),
                removedCandidates = Some removed\<rparr>)
            game
        else (False, game))"

definition applyNakedTriplesInRow :: "nat \<Rightarrow> sudoku \<Rightarrow> bool \<times> sudoku" where
  "applyNakedTriplesInRow row game =
     (let emptyCols = filter (\<lambda>col. isEmptyCell game (row, col)) [0..<9] in
      scanAll (nakedTripleInRow row emptyCols) (indexTriples (length emptyCols)) game)"

definition nakedTripleInColumn ::
  "nat \<Rightarrow> nat list \<Rightarrow> nat \<times> nat \<times> nat \<Rightarrow> sudoku \<Rightarrow> bool \<times> sudoku" where
  "nakedTripleInColumn col emptyRows ijk game =
     (case ijk of (i, j, k) \<Rightarrow>
        let row1 = emptyRows ! i; row2 = emptyRows ! j; row3 = emptyRows ! k;
            cands1 = cellAt (candidates game) row1 col;
            cands2 = cellAt (candidates game) row2 col;
            cands3 = cellAt (candidates game) row3 col in
        if isNakedTriple cands1 cands2 cands3
        then let tripleValues = newSet (cands1 @ cands2 @ cands3) in
          eliminateAndRecord
            (concat (map (\<lambda>r. if r \<noteq> row1 \<and> r \<noteq> row2 \<and> r \<noteq> row3 \<and> isEmptyCell game (r, col)
                               then map (\<lambda>val. (r, col, val)) tripleValues else []) [0..<9]))
            ''Naked Triple'' ''Column'' 4
            (\<lambda>cands' removed.
               \<lparr>rows = None, cols = Some [col],
                blocks = Some [(row1, col), (row2, col), (row3, col)], boxes = None,
                hlCandidates = Some (tripleCandidates cands' [(row1, col), (row2, col), (row3, col)]),
                removedCandidates = Some removed\<rparr>)
            game
        else (False, game))"

definition applyNakedTriplesInColumn :: "nat \<Rightarrow> sudoku \<Rightarrow> bool \<times> sudoku" where
  "applyNakedTriplesInColumn col game =
     (let emptyRows = filter (\<lambda>row. isEmptyCell game (row, col)) [0..<9] in
      scanAll (nakedTripleInColumn col emptyRows) (indexTriples (length emptyRows)) game)"

definition nakedTripleInBox ::
  "nat \<times> nat \<Rightarrow> (nat \<times> nat) list \<Rightarrow> nat \<times> nat \<times> nat \<Rightarrow> sudoku \<Rightarrow> bool \<times> sudoku" where
  "nakedTripleInBox box emptyCells ijk game =
     (case ijk of (i, j, k) \<Rightarrow>
        let cell1 = emptyCells ! i; cell2 = emptyCells ! j; cell3 = emptyCells ! k;
            cands1 = cellAt (candidates game) (fst cell1) (snd cell1);
            cands2 = cellAt (candidates game) (fst cell2) (snd cell2);
            cands3 = cellAt (candidates game) (fst cell3) (snd cell3) in
        if isNakedTriple cands1 cands2 cands3
        then let tripleValues = newSet (cands1 @ cands2 @ cands3) in
          eliminateAndRecord
            (concat (map (\<lambda>cell. if cell \<noteq> cell1 \<and> cell \<noteq> cell2 \<and> cell \<noteq> cell3
                                    \<and> isEmptyCell game cell
                                  then map (\<lambda>val. (fst cell, snd cell, val)) tripleValues else [])
                         (boxCells (fst box) (snd box))))
            ''Naked Triple'' ''Box'' 4
            (\<lambda>cands' removed.
               \<lparr>rows = None, cols = None, blocks = Some [cell1, cell2, cell3], boxes = Some [box],
                hlCandidates = Some (tripleCandidates cands' [cell1, cell2, cell3]),
                removedCandidates = Some removed\<rparr>)
            game
        else (False, game))"

definition applyNakedTriplesInBox :: "nat \<times> nat \<Rightarrow> sudoku \<Rightarrow> bool \<times> sudoku" where
  "applyNakedTriplesInBox box game =
     (let emptyCells = filter (isEmptyCell game) (boxCells (fst box) (snd box)) in
      scanAll (nakedTripleInBox box emptyCells) (indexTriples (length emptyCells)) game)"

definition applyNakedTriples :: "solverOptions option \<Rightarrow> sudoku \<Rightarrow> bool \<times> sudoku" where
  "applyNakedTriples opts game =
     (if isOff opts nakedTriples then (False, game)
      else firstHit (gated opts)
        [(nakedTriplesRows, firstHit applyNakedTriplesInRow [0..<9]),
         (nakedTriplesCols, firstHit applyNakedTriplesInColumn [0..<9]),
         (nakedTriplesBoxes, firstHit applyNakedTriplesInBox allBoxes)] game)"


section \<open>Hidden pairs\<close>

text \<open>
  \<open>firstHit\<close> and \<open>gated\<close> for steps that can end in a run-time error, which then ends
  the whole call.
\<close>

fun firstHitE ::
  "('i \<Rightarrow> sudoku \<Rightarrow> error + bool \<times> sudoku) \<Rightarrow> 'i list \<Rightarrow> sudoku \<Rightarrow> error + bool \<times> sudoku" where
  "firstHitE body [] game = Inr (False, game)"
| "firstHitE body (i # rest) game =
     (case body i game of
        Inl e \<Rightarrow> Inl e
      | Inr res \<Rightarrow> if fst res then Inr (True, snd res) else firstHitE body rest (snd res))"

definition gatedE ::
  "solverOptions option \<Rightarrow> (solverOptions \<Rightarrow> bool option) \<times> (sudoku \<Rightarrow> error + bool \<times> sudoku) \<Rightarrow>
   sudoku \<Rightarrow> error + bool \<times> sudoku" where
  "gatedE opts gs game =
     (case gs of (flag, step) \<Rightarrow> if isOff opts flag then Inr (False, game) else step game)"

definition arrayEquals :: "nat list \<Rightarrow> nat list \<Rightarrow> bool" where
  "arrayEquals a b =
     (if length a \<noteq> length b then False else (\<forall>i \<in> set [0..<length a]. a ! i = b ! i))"

definition coordsEquals :: "(nat \<times> nat) list \<Rightarrow> (nat \<times> nat) list \<Rightarrow> bool" where
  "coordsEquals a b =
     (if length a \<noteq> length b then False
      else let a' = sort a; b' = sort b in
        (\<forall>i \<in> set [0..<length a']. fst (a' ! i) = fst (b' ! i) \<and> snd (a' ! i) = snd (b' ! i)))"

definition stripOtherCandidates ::
  "jsset list list \<Rightarrow> nat \<Rightarrow> nat \<Rightarrow> jsnum list \<Rightarrow> triple list \<Rightarrow>
   bool \<times> jsset list list \<times> triple list" where
  "stripOtherCandidates cands row col allowed removed =
     (let toRemove = filter (\<lambda>digit. digit \<notin> set allowed) (cellAt cands row col) in
      case deleteEach (map (\<lambda>d. (row, col, d)) toRemove) cands removed of
        (cands', removed') \<Rightarrow> (length removed' > length removed, cands', removed'))"

text \<open>
  \<open>positionsForDigit\<close>: an array of ten position lists in the row and column variants
  (indices 0..9), an object with the keys 1..9 in the box variant. A candidate of an
  empty cell that is not such an index finds \<open>undefined\<close> there, and \<open>.push\<close> on it is a
  \<open>TypeError\<close>. \<open>lo\<close> is the least valid index.
\<close>

fun pushAll :: "int \<Rightarrow> 'p list list \<Rightarrow> (jsnum \<times> 'p) list \<Rightarrow> error + 'p list list" where
  "pushAll lo pos [] = Inr pos"
| "pushAll lo pos ((NaN, p) # rest) = Inl TypeError"
| "pushAll lo pos ((Num n, p) # rest) =
     (if lo \<le> n \<and> n \<le> 9 then pushAll lo (pos[nat n := pos ! nat n @ [p]]) rest
      else Inl TypeError)"

definition positionsForDigit ::
  "int \<Rightarrow> sudoku \<Rightarrow> (nat \<times> nat) list \<Rightarrow> (nat \<times> nat \<Rightarrow> 'p) \<Rightarrow> error + 'p list list" where
  "positionsForDigit lo game cells proj =
     pushAll lo (replicate 10 [])
       (concat (map (\<lambda>cell. if isEmptyCell game cell
                             then map (\<lambda>d. (d, proj cell)) (cellAt (candidates game) (fst cell) (snd cell))
                             else []) cells))"

text \<open>The pairs \<open>d1 < d2\<close> of digits in loop order.\<close>

definition digitPairs :: "(nat \<times> nat) list" where
  "digitPairs = concat (map (\<lambda>d1. map (\<lambda>d2. (d1, d2)) [d1 + 1..<10]) [1..<10])"

text \<open>What the three variants do once a hidden pair \<open>(d1, d2)\<close> is found in two cells.\<close>

definition stripPair ::
  "nat \<times> nat \<Rightarrow> nat \<times> nat \<Rightarrow> nat \<Rightarrow> nat \<Rightarrow> string \<Rightarrow>
   nat list option \<Rightarrow> nat list option \<Rightarrow> (nat \<times> nat) list option \<Rightarrow> sudoku \<Rightarrow> bool \<times> sudoku" where
  "stripPair cellA cellB d1 d2 var hlRows hlCols hlBoxes game =
     (let allowed = [digitNum d1, digitNum d2] in
      case stripOtherCandidates (candidates game) (fst cellA) (snd cellA) allowed [] of
        (changedA, candsA, removedA) \<Rightarrow>
      case stripOtherCandidates candsA (fst cellB) (snd cellB) allowed removedA of
        (changedB, candsB, removed) \<Rightarrow>
      let game' = game\<lparr>candidates := candsB\<rparr> in
        (changedA \<or> changedB,
         if length removed > 0
         then addSnapshot game' ''Hidden Pair'' (Some var)
           (Some \<lparr>rows = hlRows, cols = hlCols, blocks = Some [cellA, cellB], boxes = hlBoxes,
                  hlCandidates = Some [(fst cellA, snd cellA, digitNum d1),
                                       (fst cellA, snd cellA, digitNum d2),
                                       (fst cellB, snd cellB, digitNum d1),
                                       (fst cellB, snd cellB, digitNum d2)],
                  removedCandidates = Some removed\<rparr>) 5
         else game'))"

definition hiddenPairInRow :: "nat \<Rightarrow> nat list list \<Rightarrow> nat \<times> nat \<Rightarrow> sudoku \<Rightarrow> bool \<times> sudoku" where
  "hiddenPairInRow row positions dd game =
     (case dd of (d1, d2) \<Rightarrow>
        let cols1 = positions ! d1 in
        if length cols1 = 2
        then let cols2 = positions ! d2 in
          if arrayEquals cols1 cols2
          then stripPair (row, cols1 ! 0) (row, cols1 ! 1) d1 d2 ''Row'' (Some [row]) None None game
          else (False, game)
        else (False, game))"

definition applyHiddenPairsInRow :: "nat \<Rightarrow> sudoku \<Rightarrow> error + bool \<times> sudoku" where
  "applyHiddenPairsInRow row game =
     (let emptyCells = length (filter (\<lambda>col. isEmptyCell game (row, col)) [0..<9]) in
      if emptyCells < 2 then Inr (False, game)
      else case positionsForDigit 0 game (map (\<lambda>col. (row, col)) [0..<9]) snd of
        Inl e \<Rightarrow> Inl e
      | Inr positions \<Rightarrow> Inr (scanAll (hiddenPairInRow row positions) digitPairs game))"

definition hiddenPairInColumn :: "nat \<Rightarrow> nat list list \<Rightarrow> nat \<times> nat \<Rightarrow> sudoku \<Rightarrow> bool \<times> sudoku" where
  "hiddenPairInColumn col positions dd game =
     (case dd of (d1, d2) \<Rightarrow>
        let rows1 = positions ! d1 in
        if length rows1 = 2
        then let rows2 = positions ! d2 in
          if arrayEquals rows1 rows2
          then stripPair (rows1 ! 0, col) (rows1 ! 1, col) d1 d2 ''Column'' None (Some [col]) None game
          else (False, game)
        else (False, game))"

definition applyHiddenPairsInColumn :: "nat \<Rightarrow> sudoku \<Rightarrow> error + bool \<times> sudoku" where
  "applyHiddenPairsInColumn col game =
     (let emptyCells = length (filter (\<lambda>row. isEmptyCell game (row, col)) [0..<9]) in
      if emptyCells < 2 then Inr (False, game)
      else case positionsForDigit 0 game (map (\<lambda>row. (row, col)) [0..<9]) fst of
        Inl e \<Rightarrow> Inl e
      | Inr positions \<Rightarrow> Inr (scanAll (hiddenPairInColumn col positions) digitPairs game))"

definition hiddenPairInBox ::
  "nat \<times> nat \<Rightarrow> (nat \<times> nat) list list \<Rightarrow> nat \<times> nat \<Rightarrow> sudoku \<Rightarrow> bool \<times> sudoku" where
  "hiddenPairInBox box positions dd game =
     (case dd of (d1, d2) \<Rightarrow>
        let coords1 = positions ! d1 in
        if length coords1 = 2
        then let coords2 = positions ! d2 in
          if length coords2 = 2 \<and> coordsEquals coords1 coords2
          then stripPair (coords1 ! 0) (coords1 ! 1) d1 d2 ''Box'' None None (Some [box]) game
          else (False, game)
        else (False, game))"

definition applyHiddenPairsInBox :: "nat \<times> nat \<Rightarrow> sudoku \<Rightarrow> error + bool \<times> sudoku" where
  "applyHiddenPairsInBox box game =
     (let emptyCells = filter (isEmptyCell game) (boxCells (fst box) (snd box)) in
      if length emptyCells < 2 then Inr (False, game)
      else case positionsForDigit 1 game emptyCells (\<lambda>cell. cell) of
        Inl e \<Rightarrow> Inl e
      | Inr positions \<Rightarrow> Inr (scanAll (hiddenPairInBox box positions) digitPairs game))"

definition applyHiddenPairs :: "solverOptions option \<Rightarrow> sudoku \<Rightarrow> error + bool \<times> sudoku" where
  "applyHiddenPairs opts game =
     (if isOff opts hiddenPairs then Inr (False, game)
      else firstHitE (gatedE opts)
        [(hiddenPairsBoxes, firstHitE applyHiddenPairsInBox allBoxes),
         (hiddenPairsRows, firstHitE applyHiddenPairsInRow [0..<9]),
         (hiddenPairsCols, firstHitE applyHiddenPairsInColumn [0..<9])] game)"

section \<open>Box-line reduction\<close>

text \<open>
  \<open>eliminateDigitFromBox\<close> walks the nine cells of the box once. A cell of the excluded
  row or column is only read (it goes to \<open>blockHighlight\<close> when the digit is still
  possible there); every other cell is a target of the elimination. The two kinds of
  cell are disjoint, so the reads do not see the deletions.
\<close>

definition eliminateDigitFromBox ::
  "sudoku \<Rightarrow> nat \<Rightarrow> nat \<Rightarrow> jsnum \<Rightarrow> nat option \<Rightarrow> nat option \<Rightarrow> bool \<times> sudoku" where
  "eliminateDigitFromBox game boxRow boxCol digit excludeRow excludeCol =
     (let excluded = (\<lambda>cell. excludeRow = Some (fst cell) \<or> excludeCol = Some (snd cell));
          blockHighlight = filter (\<lambda>cell. excluded cell \<and> possibleAt game digit cell)
                                  (boxCells boxRow boxCol) in
      eliminateAndRecord
        (concat (map (\<lambda>cell. if \<not> excluded cell \<and> isEmptyCell game cell
                              then [(fst cell, snd cell, digit)] else [])
                     (boxCells boxRow boxCol)))
        ''Box Line Reduction'' (if excludeRow = None then ''Column'' else ''Row'') 5
        (\<lambda>cands' removed.
           \<lparr>rows = Some (case excludeRow of None \<Rightarrow> [] | Some r \<Rightarrow> [r]),
            cols = Some (case excludeCol of None \<Rightarrow> [] | Some c \<Rightarrow> [c]),
            blocks = Some blockHighlight, boxes = Some [(boxRow, boxCol)],
            hlCandidates = Some (map (\<lambda>cell. (fst cell, snd cell, digit)) blockHighlight),
            removedCandidates = Some removed\<rparr>)
        game)"

definition boxLineInRow :: "nat \<times> nat \<Rightarrow> sudoku \<Rightarrow> bool \<times> sudoku" where
  "boxLineInRow rd game =
     (case rd of (row, d) \<Rightarrow>
        if isDigitInRow (board game) row (digitNum d) then (False, game)
        else let colsForDigit = filter (\<lambda>col. possibleAt game (digitNum d) (row, col)) [0..<9] in
          if length colsForDigit > 1 \<and> length colsForDigit \<le> 3
          then let boxColStart = (colsForDigit ! 0) div 3 in
            if (\<forall>c \<in> set colsForDigit. c div 3 = boxColStart)
            then eliminateDigitFromBox game (row div 3) boxColStart (digitNum d) (Some row) None
            else (False, game)
          else (False, game))"

definition applyBoxLineReductionInRows :: "sudoku \<Rightarrow> bool \<times> sudoku" where
  "applyBoxLineReductionInRows game = firstHit boxLineInRow (unitDigits [0..<9]) game"

definition boxLineInColumn :: "nat \<times> nat \<Rightarrow> sudoku \<Rightarrow> bool \<times> sudoku" where
  "boxLineInColumn cd game =
     (case cd of (col, d) \<Rightarrow>
        if isDigitInCol (board game) col (digitNum d) then (False, game)
        else let rowsForDigit = filter (\<lambda>row. possibleAt game (digitNum d) (row, col)) [0..<9] in
          if length rowsForDigit > 1 \<and> length rowsForDigit \<le> 3
          then let boxRowStart = (rowsForDigit ! 0) div 3 in
            if (\<forall>r \<in> set rowsForDigit. r div 3 = boxRowStart)
            then eliminateDigitFromBox game boxRowStart (col div 3) (digitNum d) None (Some col)
            else (False, game)
          else (False, game))"

definition applyBoxLineReductionInColumns :: "sudoku \<Rightarrow> bool \<times> sudoku" where
  "applyBoxLineReductionInColumns game = firstHit boxLineInColumn (unitDigits [0..<9]) game"

definition applyBoxLineReduction :: "solverOptions option \<Rightarrow> sudoku \<Rightarrow> bool \<times> sudoku" where
  "applyBoxLineReduction opts game =
     (if isOff opts boxLineReduction then (False, game)
      else firstHit (gated opts)
        [(boxLineReductionRows, applyBoxLineReductionInRows),
         (boxLineReductionCols, applyBoxLineReductionInColumns)] game)"

section \<open>X-Wing\<close>

definition xWingRowPair :: "jsnum \<Rightarrow> nat list list \<Rightarrow> nat \<times> nat \<Rightarrow> sudoku \<Rightarrow> bool \<times> sudoku" where
  "xWingRowPair d digitPositionsInRow rr game =
     (case rr of (r1, r2) \<Rightarrow>
        if length (digitPositionsInRow ! r1) = 2 \<and> length (digitPositionsInRow ! r2) = 2
        then let c1 = digitPositionsInRow ! r1 ! 0; c2 = digitPositionsInRow ! r1 ! 1 in
          if digitPositionsInRow ! r2 ! 0 = c1 \<and> digitPositionsInRow ! r2 ! 1 = c2
          then eliminateAndRecord
            (concat (map (\<lambda>rx. if rx \<noteq> r1 \<and> rx \<noteq> r2
                                then (if isEmptyCell game (rx, c1) then [(rx, c1, d)] else []) @
                                     (if isEmptyCell game (rx, c2) then [(rx, c2, d)] else [])
                                else []) [0..<9]))
            ''X-Wing'' ''Row'' 6
            (\<lambda>cands' removed.
               \<lparr>rows = Some [r1, r2], cols = Some [c1, c2],
                blocks = Some [(r1, c1), (r2, c1), (r1, c2), (r2, c2)], boxes = None,
                hlCandidates = Some [(r1, c1, d), (r2, c1, d), (r1, c2, d), (r2, c2, d)],
                removedCandidates = Some removed\<rparr>)
            game
          else (False, game)
        else (False, game))"

definition applyXWingRows :: "jsnum \<Rightarrow> sudoku \<Rightarrow> bool \<times> sudoku" where
  "applyXWingRows d game =
     (let digitPositionsInRow =
        map (\<lambda>r. filter (\<lambda>c. possibleAt game d (r, c)) [0..<9]) [0..<9] in
      scanAll (xWingRowPair d digitPositionsInRow) (indexPairs 9) game)"

definition xWingColumnPair :: "jsnum \<Rightarrow> nat list list \<Rightarrow> nat \<times> nat \<Rightarrow> sudoku \<Rightarrow> bool \<times> sudoku" where
  "xWingColumnPair d digitPositionsInCol cc game =
     (case cc of (c1, c2) \<Rightarrow>
        if length (digitPositionsInCol ! c1) = 2 \<and> length (digitPositionsInCol ! c2) = 2
        then let r1 = digitPositionsInCol ! c1 ! 0; r2 = digitPositionsInCol ! c1 ! 1 in
          if digitPositionsInCol ! c2 ! 0 = r1 \<and> digitPositionsInCol ! c2 ! 1 = r2
          then eliminateAndRecord
            (concat (map (\<lambda>cx. if cx \<noteq> c1 \<and> cx \<noteq> c2
                                then (if isEmptyCell game (r1, cx) then [(r1, cx, d)] else []) @
                                     (if isEmptyCell game (r2, cx) then [(r2, cx, d)] else [])
                                else []) [0..<9]))
            ''X-Wing'' ''Column'' 6
            (\<lambda>cands' removed.
               \<lparr>rows = Some [r1, r2], cols = Some [c1, c2],
                blocks = Some [(r1, c1), (r2, c1), (r1, c2), (r2, c2)], boxes = None,
                hlCandidates = Some [(r1, c1, d), (r2, c1, d), (r1, c2, d), (r2, c2, d)],
                removedCandidates = Some removed\<rparr>)
            game
          else (False, game)
        else (False, game))"

definition applyXWingColumns :: "jsnum \<Rightarrow> sudoku \<Rightarrow> bool \<times> sudoku" where
  "applyXWingColumns d game =
     (let digitPositionsInCol =
        map (\<lambda>c. filter (\<lambda>r. possibleAt game d (r, c)) [0..<9]) [0..<9] in
      scanAll (xWingColumnPair d digitPositionsInCol) (indexPairs 9) game)"

definition applyXWing :: "solverOptions option \<Rightarrow> sudoku \<Rightarrow> bool \<times> sudoku" where
  "applyXWing opts game =
     (if isOff opts xWing then (False, game)
      else firstHit (gated opts)
        (concat (map (\<lambda>d. [(xWingRows, applyXWingRows (digitNum d)),
                           (xWingCols, applyXWingColumns (digitNum d))]) [1..<10])) game)"


section \<open>The strategy scheduler and the solver\<close>

text \<open>
  One statement of the loop body, \<^verbatim>\<open>if (!changed && strategy(game, opts)) changed = true;\<close>
  on the pair of the flag and the session. Only \<open>applyHiddenPairs\<close> can end in an error.
\<close>

definition unlessChanged ::
  "(sudoku \<Rightarrow> error + bool \<times> sudoku) \<Rightarrow> error + bool \<times> sudoku \<Rightarrow> error + bool \<times> sudoku" where
  "unlessChanged strategy st =
     (case st of
        Inl e \<Rightarrow> Inl e
      | Inr (changed, game) \<Rightarrow> if \<not> changed then strategy game else Inr (changed, game))"

definition noError :: "(sudoku \<Rightarrow> bool \<times> sudoku) \<Rightarrow> sudoku \<Rightarrow> error + bool \<times> sudoku" where
  "noError strategy game = Inr (strategy game)"

text \<open>The body of the \<open>while (changed)\<close> loop, from \<open>changed = false\<close> on.\<close>

definition logicalPass :: "solverOptions option \<Rightarrow> sudoku \<Rightarrow> error + bool \<times> sudoku" where
  "logicalPass opts game =
     unlessChanged (noError (applyXWing opts))
       (unlessChanged (noError (applyBoxLineReduction opts))
         (unlessChanged (applyHiddenPairs opts)
           (unlessChanged (noError (applyNakedTriples opts))
             (unlessChanged (noError (applyHiddenSingles opts))
               (unlessChanged (noError (applyNakedPairs opts))
                 (unlessChanged (noError (applyNakedSingles opts))
                   (Inr (False, game))))))))"

text \<open>The loop itself; \<open>None\<close> is a loop that never ends.\<close>

partial_function (option) applyLogicalStrategies ::
  "solverOptions option \<Rightarrow> sudoku \<Rightarrow> (error + sudoku) option" where
  "applyLogicalStrategies opts game =
     (case logicalPass opts game of
        Inl e \<Rightarrow> Some (Inl e)
      | Inr (changed, game') \<Rightarrow>
          if changed then applyLogicalStrategies opts game' else Some (Inr game'))"

declare applyLogicalStrategies.simps [code]

datatype startingBoard = Matrix "jsnum list list" | PuzzleString string

text \<open>The session \<open>solveSudoku\<close> starts the logical phase from.\<close>

definition initialGame :: "jsnum list list \<Rightarrow> sudoku" where
  "initialGame startingMatrix =
     (let brd = deepCloneBoard startingMatrix in
      addSnapshot \<lparr>board = brd, candidates = buildCandidates brd, snapshots = []\<rparr>
        ''Initial Board'' None None 0)"

text \<open>
  \<open>solveSudoku\<close>; the call of \<open>backtrack\<close> is commented out in the source, so the session
  is returned as the logical phase leaves it.
\<close>

definition solveSudoku :: "startingBoard \<Rightarrow> solverOptions option \<Rightarrow> (error + sudoku) option" where
  "solveSudoku startingBoard opts =
     (case (case startingBoard of PuzzleString str \<Rightarrow> stringToBoard str | Matrix m \<Rightarrow> Inr m) of
        Inl e \<Rightarrow> Some (Inl e)
      | Inr m \<Rightarrow> applyLogicalStrategies opts (initialGame m))"

section \<open>Backtracking\<close>

text \<open>
  \<open>findEmptyCell\<close> returns the first empty cell in row-major order, or \<open>[-1, -1]\<close>,
  here \<open>None\<close>.
\<close>

definition findEmptyCell :: "jsnum list list \<Rightarrow> (nat \<times> nat) option" where
  "findEmptyCell brd =
     (case filter (\<lambda>(row, col). strictEq (cellAt brd row col) (Num 0)) allCells of
        [] \<Rightarrow> None
      | cell # _ \<Rightarrow> Some cell)"

definition isValid :: "jsnum list list \<Rightarrow> nat \<Rightarrow> nat \<Rightarrow> jsnum \<Rightarrow> bool" where
  "isValid brd row col digit =
     (\<not> (\<exists>c \<in> set [0..<9]. strictEq (cellAt brd row c) digit)
      \<and> \<not> (\<exists>r \<in> set [0..<9]. strictEq (cellAt brd r col) digit)
      \<and> \<not> (\<exists>(r, c) \<in> set (boxFrom (row - row mod 3) (col - col mod 3)).
              strictEq (cellAt brd r c) digit))"

definition rebuildAllCandidates :: "sudoku \<Rightarrow> sudoku" where
  "rebuildAllCandidates game =
     (let newCands = buildCandidates (board game) in
      game\<lparr>candidates := foldl (\<lambda>cs (r, c). gridSet cs r c (cellAt newCands r c))
                                (candidates game) allCells\<rparr>)"

text \<open>
  The two halves of a trial in \<open>backtrack\<close>. Before the recursive call: the digit is
  written to the board, the cell's candidate set becomes the singleton, and the digit is
  eliminated from the peers. After a failed recursive call: the cell is emptied, its old
  candidate set is put back, and the whole candidate grid is rebuilt from the board.
\<close>

definition placeTrial :: "sudoku \<Rightarrow> nat \<Rightarrow> nat \<Rightarrow> jsnum \<Rightarrow> sudoku" where
  "placeTrial game row col digit =
     game\<lparr>board := gridSet (board game) row col digit,
          candidates := eliminateFromPeers (gridSet (board game) row col digit)
                          (gridSet (candidates game) row col (newSet [digit])) row col digit\<rparr>"

definition undoTrial :: "sudoku \<Rightarrow> nat \<Rightarrow> nat \<Rightarrow> jsset \<Rightarrow> sudoku" where
  "undoTrial failed row col oldCandidates =
     rebuildAllCandidates
       (failed\<lparr>board := gridSet (board failed) row col (Num 0),
               candidates := gridSet (candidates failed) row col oldCandidates\<rparr>)"

text \<open>
  \<open>backtrack\<close> recurses once per placed digit; \<open>fuel\<close> bounds the depth of that recursion
  and \<open>None\<close> means the bound was too small. \<open>tryDigits\<close> is the loop over
  \<open>possibleDigits\<close>, the copy of the cell's candidates taken before the loop;
  \<open>oldCandidates\<close> is the copy of the cell's set taken before it is overwritten.
\<close>

fun backtrack :: "nat \<Rightarrow> sudoku \<Rightarrow> (bool \<times> sudoku) option"
  and tryDigits :: "nat \<Rightarrow> nat \<Rightarrow> nat \<Rightarrow> jsnum list \<Rightarrow> sudoku \<Rightarrow> (bool \<times> sudoku) option" where
  "backtrack 0 game = None"
| "backtrack (Suc fuel) game =
     (case findEmptyCell (board game) of
        None \<Rightarrow> Some (True, game)
      | Some (row, col) \<Rightarrow> tryDigits fuel row col (cellAt (candidates game) row col) game)"
| "tryDigits fuel row col [] game = Some (False, game)"
| "tryDigits fuel row col (digit # rest) game =
     (if isValid (board game) row col digit
      then (case backtrack fuel (placeTrial game row col digit) of
              None \<Rightarrow> None
            | Some res \<Rightarrow>
                if fst res then Some (True, snd res)
                else tryDigits fuel row col rest
                  (undoTrial (snd res) row col (newSet (cellAt (candidates game) row col))))
      else tryDigits fuel row col rest game)"

section \<open>The caller's matrix\<close>

text \<open>
  Whether \<open>solveSudoku\<close> changes its argument depends on which arrays are shared, so this
  part has a store: an address holds a row array or an outer array of row addresses, and an
  allocation takes the next free address. \<open>deepCloneBoard\<close> is
  \<^verbatim>\<open>board.map((row) => [...row])\<close>: a new array per row, and a new outer array.
\<close>

datatype obj = RowArray "jsnum list" | OuterArray "nat list"

type_synonym store = "obj list"

definition alloc :: "store \<Rightarrow> obj \<Rightarrow> store \<times> nat" where
  "alloc st ob = (st @ [ob], length st)"

definition rowAt :: "store \<Rightarrow> nat \<Rightarrow> jsnum list" where
  "rowAt st a = (case st ! a of RowArray xs \<Rightarrow> xs | OuterArray _ \<Rightarrow> [])"

definition rowsOf :: "store \<Rightarrow> nat \<Rightarrow> nat list" where
  "rowsOf st a = (case st ! a of OuterArray ras \<Rightarrow> ras | RowArray _ \<Rightarrow> [])"

definition readMatrix :: "store \<Rightarrow> nat \<Rightarrow> jsnum list list" where
  "readMatrix st a = map (rowAt st) (rowsOf st a)"

fun cloneRows :: "store \<Rightarrow> nat list \<Rightarrow> store \<times> nat list" where
  "cloneRows st [] = (st, [])"
| "cloneRows st (ra # ras) =
     (case alloc st (RowArray (rowAt st ra)) of (st1, ra') \<Rightarrow>
        (case cloneRows st1 ras of (st2, ras') \<Rightarrow> (st2, ra' # ras')))"

definition deepCloneBoardRef :: "store \<Rightarrow> nat \<Rightarrow> store \<times> nat" where
  "deepCloneBoardRef st a =
     (case cloneRows st (rowsOf st a) of (st1, ras') \<Rightarrow> alloc st1 (OuterArray ras'))"

text \<open>The writes \<open>game.board[row][col] = digit\<close> of a run, seen from the store: they go
  through the rows of \<open>game.board\<close>.\<close>

fun writeRows :: "store \<Rightarrow> nat list \<Rightarrow> jsnum list list \<Rightarrow> store" where
  "writeRows st (ra # ras) (row # rest) = writeRows (st[ra := RowArray row]) ras rest"
| "writeRows st _ _ = st"

text \<open>
  \<open>solveSudoku\<close> called with a reference: the board of the session is the clone, the
  solver runs on it, and the rows of the clone end up holding the final board.
\<close>

definition solveSudokuRef ::
  "store \<Rightarrow> nat \<Rightarrow> solverOptions option \<Rightarrow> (store \<times> (error + sudoku)) option" where
  "solveSudokuRef st a opts =
     (case deepCloneBoardRef st a of (st1, a') \<Rightarrow>
        (case applyLogicalStrategies opts
                (addSnapshot \<lparr>board = readMatrix st1 a',
                              candidates = buildCandidates (readMatrix st1 a'), snapshots = []\<rparr>
                   ''Initial Board'' None None 0) of
           None \<Rightarrow> None
         | Some (Inl e) \<Rightarrow> Some (st1, Inl e)
         | Some (Inr game) \<Rightarrow> Some (writeRows st1 (rowsOf st1 a') (board game), Inr game)))"

text \<open>A store in which \<open>a\<close> is a matrix: an outer array whose entries are row arrays.\<close>

definition isMatrixAt :: "store \<Rightarrow> nat \<Rightarrow> bool" where
  "isMatrixAt st a =
     (a < length st \<and> (case st ! a of
        OuterArray ras \<Rightarrow> (\<forall>ra \<in> set ras. ra < length st \<and> (case st ! ra of RowArray _ \<Rightarrow> True | _ \<Rightarrow> False))
      | RowArray _ \<Rightarrow> False))"


section \<open>Properties of a session\<close>

text \<open>
  A well-formed session: both grids are 9x9, every candidate set is a set (no digit
  twice), and the candidates of an empty cell are digits 1..9.
\<close>

definition wfCands :: "jsset list list \<Rightarrow> bool" where
  "wfCands cands = (is9x9 cands \<and> (\<forall>(r, c) \<in> set allCells. distinct (cellAt cands r c)))"

definition wfGame :: "sudoku \<Rightarrow> bool" where
  "wfGame game =
     (is9x9 (board game) \<and> wfCands (candidates game)
      \<and> (\<forall>(r, c) \<in> set allCells.
            strictEq (cellAt (board game) r c) (Num 0)
              \<longrightarrow> set (cellAt (candidates game) r c) \<subseteq> set fullSet))"

text \<open>
  A snapshot is sound with respect to the one before it when every removed candidate it
  lists was a candidate of that cell before and is none now.
\<close>

definition removalsSound :: "sudokuSnapshot \<Rightarrow> sudokuSnapshot \<Rightarrow> bool" where
  "removalsSound prev cur =
     (case highlight cur of
        None \<Rightarrow> True
      | Some hl \<Rightarrow>
          (case removedCandidates hl of
             None \<Rightarrow> True
           | Some removed \<Rightarrow>
               (\<forall>(r, c, d) \<in> set removed.
                  r < 9 \<and> c < 9
                  \<and> setHas (cellAt (snCandidates prev) r c) d
                  \<and> \<not> setHas (cellAt (snCandidates cur) r c) d)))"

definition snapshotsSound :: "sudokuSnapshot list \<Rightarrow> bool" where
  "snapshotsSound snaps =
     (\<forall>i \<in> set [0..<length snaps - 1]. removalsSound (snaps ! i) (snaps ! Suc i))"

text \<open>The last snapshot shows the session as it is.\<close>

definition synced :: "sudoku \<Rightarrow> bool" where
  "synced game =
     (snapshots game \<noteq> []
      \<and> snBoard (last (snapshots game)) = board game
      \<and> snCandidates (last (snapshots game)) = candidates game)"

definition goodGame :: "sudoku \<Rightarrow> bool" where
  "goodGame game = (wfGame game \<and> synced game \<and> snapshotsSound (snapshots game))"

text \<open>
  What is left to do: the candidates still standing and the cells still empty. Every
  step that reports a change makes this smaller.
\<close>

definition candTriples :: "jsset list list \<Rightarrow> (nat \<times> nat \<times> jsnum) set" where
  "candTriples cands = {(r, c, d). r < 9 \<and> c < 9 \<and> d \<in> set (cellAt cands r c)}"

definition emptyCells :: "jsnum list list \<Rightarrow> (nat \<times> nat) set" where
  "emptyCells brd = {(r, c). r < 9 \<and> c < 9 \<and> cellAt brd r c = Num 0}"

definition workLeft :: "sudoku \<Rightarrow> nat" where
  "workLeft game = card (candTriples (candidates game)) + card (emptyCells (board game))"

text \<open>
  What every strategy guarantees when it is run on a good session: it leaves a good
  session, only adds snapshots, never touches a filled cell, only removes candidates,
  changes nothing when it reports no change and makes progress when it reports one.
\<close>

definition stepOk :: "sudoku \<Rightarrow> bool \<times> sudoku \<Rightarrow> bool" where
  "stepOk game res =
     (case res of (changed, game') \<Rightarrow>
        goodGame game'
        \<and> (\<not> changed \<longrightarrow> game' = game)
        \<and> (changed \<longrightarrow> workLeft game' < workLeft game)
        \<and> (\<exists>new. snapshots game' = snapshots game @ new)
        \<and> (\<forall>(r, c) \<in> set allCells.
              (cellAt (board game) r c \<noteq> Num 0 \<longrightarrow> cellAt (board game') r c = cellAt (board game) r c)
              \<and> set (cellAt (candidates game') r c) \<subseteq> set (cellAt (candidates game) r c)))"

definition okStep :: "(sudoku \<Rightarrow> bool \<times> sudoku) \<Rightarrow> bool" where
  "okStep step = (\<forall>game. goodGame game \<longrightarrow> stepOk game (step game))"

definition okStepE :: "(sudoku \<Rightarrow> error + bool \<times> sudoku) \<Rightarrow> bool" where
  "okStepE step = (\<forall>game. goodGame game \<longrightarrow> (\<exists>res. step game = Inr res \<and> stepOk game res))"

section \<open>The scheduler as the specification words it\<close>

text \<open>
  The seven strategies in their priority order, and one outer iteration that tries them
  in that order and ends at the first one that reports a change.
\<close>

definition strategyOrder :: "solverOptions option \<Rightarrow> (sudoku \<Rightarrow> error + bool \<times> sudoku) list" where
  "strategyOrder opts =
     [noError (applyNakedSingles opts), noError (applyNakedPairs opts),
      noError (applyHiddenSingles opts), noError (applyNakedTriples opts),
      applyHiddenPairs opts, noError (applyBoxLineReduction opts), noError (applyXWing opts)]"

definition firstChange ::
  "(sudoku \<Rightarrow> error + bool \<times> sudoku) list \<Rightarrow> sudoku \<Rightarrow> error + bool \<times> sudoku" where
  "firstChange strategies game = firstHitE (\<lambda>strategy. strategy) strategies game"

text \<open>The session after \<open>n\<close> outer iterations that each reported a change.\<close>

fun afterPasses :: "solverOptions option \<Rightarrow> nat \<Rightarrow> sudoku \<Rightarrow> sudoku option" where
  "afterPasses opts 0 game = Some game"
| "afterPasses opts (Suc n) game =
     (case logicalPass opts game of
        Inr (True, game') \<Rightarrow> afterPasses opts n game'
      | _ \<Rightarrow> None)"


section \<open>Inputs and examples\<close>

text \<open>An input \<open>solveSudoku\<close> is meant for: a 9x9 matrix, or any string.\<close>

definition validInput :: "startingBoard \<Rightarrow> bool" where
  "validInput startingBoard =
     (case startingBoard of Matrix m \<Rightarrow> is9x9 m | PuzzleString str \<Rightarrow> True)"

text \<open>
  A solution of a puzzle: every row, column and box holds the digits 1..9, and the
  filled cells of the puzzle are kept.
\<close>

definition allUnits :: "(nat \<times> nat) list list" where
  "allUnits =
     map (\<lambda>r. map (\<lambda>c. (r, c)) [0..<9]) [0..<9] @
     map (\<lambda>c. map (\<lambda>r. (r, c)) [0..<9]) [0..<9] @
     map (\<lambda>(br, bc). boxCells br bc) allBoxes"

definition isSolutionOf :: "jsnum list list \<Rightarrow> jsnum list list \<Rightarrow> bool" where
  "isSolutionOf solution puzzle =
     (is9x9 solution
      \<and> (\<forall>unit \<in> set allUnits. set (map (\<lambda>(r, c). cellAt solution r c) unit) = set fullSet)
      \<and> (\<forall>(r, c) \<in> set allCells.
            cellAt puzzle r c = Num 0 \<or> cellAt puzzle r c = cellAt solution r c))"

text \<open>
  A puzzle with four empty cells, at rows 3 and 4 of columns 5 and 8, where 1 and 3 can
  be placed in two ways. No strategy can decide between them.
\<close>

definition rectBoard :: "jsnum list list" where
  "rectBoard =
     [[Num 5, Num 3, Num 4, Num 6, Num 7, Num 8, Num 9, Num 1, Num 2],
      [Num 6, Num 7, Num 2, Num 1, Num 9, Num 5, Num 3, Num 4, Num 8],
      [Num 1, Num 9, Num 8, Num 3, Num 4, Num 2, Num 5, Num 6, Num 7],
      [Num 8, Num 5, Num 9, Num 7, Num 6, Num 0, Num 4, Num 2, Num 0],
      [Num 4, Num 2, Num 6, Num 8, Num 5, Num 0, Num 7, Num 9, Num 0],
      [Num 7, Num 1, Num 3, Num 9, Num 2, Num 4, Num 8, Num 5, Num 6],
      [Num 9, Num 6, Num 1, Num 5, Num 3, Num 7, Num 2, Num 8, Num 4],
      [Num 2, Num 8, Num 7, Num 4, Num 1, Num 9, Num 6, Num 3, Num 5],
      [Num 3, Num 4, Num 5, Num 2, Num 8, Num 6, Num 1, Num 7, Num 9]]"

definition rectSolution :: "jsnum list list" where
  "rectSolution =
     [[Num 5, Num 3, Num 4, Num 6, Num 7, Num 8, Num 9, Num 1, Num 2],
      [Num 6, Num 7, Num 2, Num 1, Num 9, Num 5, Num 3, Num 4, Num 8],
      [Num 1, Num 9, Num 8, Num 3, Num 4, Num 2, Num 5, Num 6, Num 7],
      [Num 8, Num 5, Num 9, Num 7, Num 6, Num 1, Num 4, Num 2, Num 3],
      [Num 4, Num 2, Num 6, Num 8, Num 5, Num 3, Num 7, Num 9, Num 1],
      [Num 7, Num 1, Num 3, Num 9, Num 2, Num 4, Num 8, Num 5, Num 6],
      [Num 9, Num 6, Num 1, Num 5, Num 3, Num 7, Num 2, Num 8, Num 4],
      [Num 2, Num 8, Num 7, Num 4, Num 1, Num 9, Num 6, Num 3, Num 5],
      [Num 3, Num 4, Num 5, Num 2, Num 8, Num 6, Num 1, Num 7, Num 9]]"


text \<open>
  A board without a solution: the first two cells are empty, 5 fits the first one, and
  then nothing fits the second one, where only 3 is missing from the row but stands in
  the column already.
\<close>

definition deadEndBoard :: "jsnum list list" where
  "deadEndBoard =
     [[Num 0, Num 0, Num 4, Num 6, Num 7, Num 8, Num 9, Num 1, Num 2],
      [Num 6, Num 7, Num 2, Num 1, Num 9, Num 5, Num 3, Num 4, Num 8],
      [Num 1, Num 9, Num 8, Num 3, Num 4, Num 2, Num 5, Num 6, Num 7],
      [Num 8, Num 5, Num 9, Num 7, Num 6, Num 1, Num 4, Num 2, Num 3],
      [Num 4, Num 2, Num 6, Num 8, Num 5, Num 3, Num 7, Num 9, Num 1],
      [Num 7, Num 1, Num 3, Num 9, Num 2, Num 4, Num 8, Num 5, Num 6],
      [Num 9, Num 6, Num 1, Num 5, Num 3, Num 7, Num 2, Num 8, Num 4],
      [Num 2, Num 8, Num 7, Num 4, Num 1, Num 9, Num 6, Num 3, Num 5],
      [Num 3, Num 3, Num 5, Num 2, Num 8, Num 6, Num 1, Num 7, Num 9]]"

definition deadEndGame :: sudoku where
  "deadEndGame = \<lparr>board = deadEndBoard, candidates = buildCandidates deadEndBoard, snapshots = []\<rparr>"

text \<open>A 9x9 matrix with entries that are no digits.\<close>

definition oddBoard :: "jsnum list list" where
  "oddBoard = replicate 9 [Num 10, NaN, Num (- 3), Num 0, Num 0, Num 0, Num 0, Num 0, Num 0]"

section \<open>Lemmas\<close>

lemma set_allCells: "set allCells = {(r, c). r < 9 \<and> c < 9}"
  by (auto simp: allCells_def)

lemma is9x9_row: "is9x9 g \<Longrightarrow> r < 9 \<Longrightarrow> length (g ! r) = 9"
  using nth_mem[of r g] by (auto simp: is9x9_def)

lemma is9x9_length: "is9x9 g \<Longrightarrow> length g = 9"
  by (simp add: is9x9_def)

lemma is9x9_gridSet: "is9x9 g \<Longrightarrow> is9x9 (gridSet g r c v)"
proof (cases "r < length g")
  case True
  assume "is9x9 g"
  then show ?thesis using True nth_mem[OF True]
    by (auto simp: is9x9_def gridSet_def dest!: subsetD[OF set_update_subset_insert])
next
  case False
  assume "is9x9 g"
  then show ?thesis using False by (simp add: gridSet_def list_update_beyond)
qed

lemma cellAt_gridSet:
  "is9x9 g \<Longrightarrow> r < 9 \<Longrightarrow> c < 9 \<Longrightarrow>
   cellAt (gridSet g r c v) r' c' = (if r' = r \<and> c' = c then v else cellAt g r' c')"
  by (auto simp: cellAt_def gridSet_def is9x9_def nth_list_update)

lemma gridSet_same: "is9x9 g \<Longrightarrow> r < 9 \<Longrightarrow> c < 9 \<Longrightarrow> gridSet g r c (cellAt g r c) = g"
  by (simp add: gridSet_def cellAt_def)

lemma grid_eqI:
  assumes "is9x9 g" "is9x9 h" "\<And>r c. r < 9 \<Longrightarrow> c < 9 \<Longrightarrow> cellAt g r c = cellAt h r c"
  shows "g = h"
proof (rule nth_equalityI)
  show "length g = length h" using assms by (simp add: is9x9_def)
next
  fix i assume "i < length g"
  then have i: "i < 9" using assms by (simp add: is9x9_def)
  show "g ! i = h ! i"
  proof (rule nth_equalityI)
    show "length (g ! i) = length (h ! i)" using assms i by (simp add: is9x9_row)
  next
    fix j assume "j < length (g ! i)"
    then have "j < 9" using assms i by (simp add: is9x9_row)
    then show "g ! i ! j = h ! i ! j" using assms(3)[OF i] by (simp add: cellAt_def)
  qed
qed

lemma strictEq_zero [simp]: "strictEq x (Num n) = (x = Num n)"
  by (auto simp: strictEq_def)

lemma set_setDelete [simp]: "set (setDelete s x) = set s - {x}"
  by (simp add: setDelete_def)

lemma distinct_setDelete [simp]: "distinct s \<Longrightarrow> distinct (setDelete s x)"
  by (simp add: setDelete_def distinct_removeAll)

lemma foldl_setAdd: "distinct acc \<Longrightarrow> distinct (foldl setAdd acc xs) \<and> set (foldl setAdd acc xs) = set acc \<union> set xs"
  by (induction xs arbitrary: acc) (auto simp: setAdd_def)

lemma set_newSet [simp]: "set (newSet xs) = set xs"
  using foldl_setAdd[of "[]" xs] by (simp add: newSet_def)

lemma distinct_newSet [simp]: "distinct (newSet xs)"
  using foldl_setAdd[of "[]" xs] by (simp add: newSet_def)

lemma foldl_setAdd_distinct: "distinct (acc @ xs) \<Longrightarrow> foldl setAdd acc xs = acc @ xs"
  by (induction xs arbitrary: acc) (auto simp: setAdd_def)

lemma newSet_distinct: "distinct xs \<Longrightarrow> newSet xs = xs"
  using foldl_setAdd_distinct[of "[]" xs] by (simp add: newSet_def)

lemma wfCands_cell: "wfCands cs \<Longrightarrow> r < 9 \<Longrightarrow> c < 9 \<Longrightarrow> distinct (cellAt cs r c)"
  by (auto simp: wfCands_def set_allCells)

lemma wfCands_9x9: "wfCands cs \<Longrightarrow> is9x9 cs"
  by (simp add: wfCands_def)

lemma wfCandsI: "is9x9 cs \<Longrightarrow> (\<And>r c. r < 9 \<Longrightarrow> c < 9 \<Longrightarrow> distinct (cellAt cs r c)) \<Longrightarrow> wfCands cs"
  by (auto simp: wfCands_def set_allCells)

lemma deepCloneBoard_id [simp]: "deepCloneBoard b = b"
  by (simp add: deepCloneBoard_def)

lemma deepCloneCandidates_id: "wfCands cs \<Longrightarrow> deepCloneCandidates cs = cs"
proof -
  assume wf: "wfCands cs"
  have "map (map newSet) cs = map (\<lambda>row. row) cs"
  proof (rule map_cong[OF refl])
    fix row assume row: "row \<in> set cs"
    then obtain r where r: "r < length cs" "row = cs ! r" by (auto simp: in_set_conv_nth)
    have r9: "r < 9" using r wf by (simp add: wfCands_def is9x9_def)
    have "map newSet row = map (\<lambda>x. x) row"
    proof (rule map_cong[OF refl])
      fix s assume "s \<in> set row"
      then obtain c where c: "c < length row" "s = row ! c" by (auto simp: in_set_conv_nth)
      have "c < 9" using c r wf row by (auto simp: wfCands_def is9x9_def)
      then have "distinct s" using wfCands_cell[OF wf r9] c r by (simp add: cellAt_def)
      then show "newSet s = s" by (rule newSet_distinct)
    qed
    then show "map newSet row = row" by simp
  qed
  then show ?thesis by (simp add: deepCloneCandidates_def)
qed

lemma wfCands_candDelete: "wfCands cs \<Longrightarrow> r < 9 \<Longrightarrow> c < 9 \<Longrightarrow> wfCands (candDelete cs r c d)"
  by (auto intro!: wfCandsI simp: candDelete_def is9x9_gridSet wfCands_9x9 cellAt_gridSet wfCands_cell)

lemma cellAt_candDelete:
  "wfCands cs \<Longrightarrow> r < 9 \<Longrightarrow> c < 9 \<Longrightarrow>
   set (cellAt (candDelete cs r c d) r' c') = (if r' = r \<and> c' = c then set (cellAt cs r c) - {d} else set (cellAt cs r' c'))"
  by (simp add: candDelete_def cellAt_gridSet wfCands_9x9)

lemma candDelete_absent: "wfCands cs \<Longrightarrow> r < 9 \<Longrightarrow> c < 9 \<Longrightarrow> d \<notin> set (cellAt cs r c) \<Longrightarrow> candDelete cs r c d = cs"
  by (simp add: candDelete_def setDelete_def gridSet_same wfCands_9x9)

lemma deleteEach_props:
  assumes "wfCands cs" "\<forall>(r, c, d) \<in> set ts. r < 9 \<and> c < 9" "deleteEach ts cs rem = (cs', rem')"
  shows "wfCands cs' \<and> (\<forall>r c. set (cellAt cs' r c) \<subseteq> set (cellAt cs r c))
     \<and> (\<exists>new. rem' = rem @ new
          \<and> (\<forall>(r, c, d) \<in> set new. r < 9 \<and> c < 9 \<and> d \<in> set (cellAt cs r c) \<and> d \<notin> set (cellAt cs' r c))
          \<and> (new = [] \<longrightarrow> cs' = cs))"
  using assms
proof (induction ts cs rem rule: deleteEach.induct)
  case (1 cands removed)
  then show ?case by simp
next
  case (2 r c d rest cands removed)
  have rc: "r < 9" "c < 9" and rest: "\<forall>(r, c, d) \<in> set rest. r < 9 \<and> c < 9"
    using "2.prems"(2) by auto
  show ?case
  proof (cases "setHas (cellAt cands r c) d")
    case True
    let ?c1 = "candDelete cands r c d"
    have wf1: "wfCands ?c1" using "2.prems"(1) rc by (rule wfCands_candDelete)
    have run: "deleteEach rest ?c1 (removed @ [(r, c, d)]) = (cs', rem')"
      using "2.prems"(3) True by simp
    from "2.IH"(1)[OF True wf1 rest run]
    obtain new where ih: "wfCands cs'" "\<forall>r' c'. set (cellAt cs' r' c') \<subseteq> set (cellAt ?c1 r' c')"
      "rem' = (removed @ [(r, c, d)]) @ new"
      "\<forall>(r', c', d') \<in> set new. r' < 9 \<and> c' < 9 \<and> d' \<in> set (cellAt ?c1 r' c') \<and> d' \<notin> set (cellAt cs' r' c')"
      by blast
    have sub1: "\<And>r' c'. set (cellAt ?c1 r' c') \<subseteq> set (cellAt cands r' c')"
      using "2.prems"(1) rc by (auto simp: cellAt_candDelete)
    have gone: "d \<notin> set (cellAt ?c1 r c)" using "2.prems"(1) rc by (simp add: cellAt_candDelete)
    have "\<forall>(r', c', d') \<in> set ((r, c, d) # new).
        r' < 9 \<and> c' < 9 \<and> d' \<in> set (cellAt cands r' c') \<and> d' \<notin> set (cellAt cs' r' c')"
      using ih(2,4) sub1 gone True rc by (fastforce simp: setHas_def)
    moreover have "rem' = removed @ ((r, c, d) # new)" using ih(3) by simp
    moreover have "\<forall>r' c'. set (cellAt cs' r' c') \<subseteq> set (cellAt cands r' c')"
      using ih(2) sub1 by blast
    ultimately show ?thesis using ih(1) by blast
  next
    case False
    then have run: "deleteEach rest cands removed = (cs', rem')" using "2.prems"(3) by simp
    from "2.IH"(2)[OF False "2.prems"(1) rest run] show ?thesis .
  qed
qed

lemma finite_candTriples [simp]: "finite (candTriples cs)"
proof -
  have "candTriples cs \<subseteq> (\<Union>r \<in> {..<9}. \<Union>c \<in> {..<9}. (\<lambda>d. (r, c, d)) ` set (cellAt cs r c))"
    by (auto simp: candTriples_def)
  moreover have "finite (\<Union>r \<in> {..<9::nat}. \<Union>c \<in> {..<9::nat}. (\<lambda>d. (r, c, d)) ` set (cellAt cs r c))"
    by blast
  ultimately show ?thesis by (rule finite_subset)
qed

lemma finite_emptyCells [simp]: "finite (emptyCells brd)"
proof -
  have "emptyCells brd \<subseteq> {..<9} \<times> {..<9}" by (auto simp: emptyCells_def)
  then show ?thesis by (rule finite_subset) simp
qed

lemma candTriples_mono:
  "(\<And>r c. r < 9 \<Longrightarrow> c < 9 \<Longrightarrow> set (cellAt cs' r c) \<subseteq> set (cellAt cs r c)) \<Longrightarrow> candTriples cs' \<subseteq> candTriples cs"
  by (auto simp: candTriples_def)

lemma candTriples_card_mono:
  "(\<And>r c. r < 9 \<Longrightarrow> c < 9 \<Longrightarrow> set (cellAt cs' r c) \<subseteq> set (cellAt cs r c)) \<Longrightarrow> card (candTriples cs') \<le> card (candTriples cs)"
  by (intro card_mono candTriples_mono) auto

lemma candTriples_card_less:
  assumes "\<And>r c. r < 9 \<Longrightarrow> c < 9 \<Longrightarrow> set (cellAt cs' r c) \<subseteq> set (cellAt cs r c)"
    and "r < 9" "c < 9" "d \<in> set (cellAt cs r c)" "d \<notin> set (cellAt cs' r c)"
  shows "card (candTriples cs') < card (candTriples cs)"
proof (rule psubset_card_mono)
  show "finite (candTriples cs)" by simp
  have "(r, c, d) \<in> candTriples cs" "(r, c, d) \<notin> candTriples cs'"
    using assms(2-5) by (auto simp: candTriples_def)
  then show "candTriples cs' \<subset> candTriples cs" using candTriples_mono[of cs' cs] assms(1) by blast
qed

lemma snapshotsSound_iff:
  "snapshotsSound snaps = (\<forall>i. Suc i < length snaps \<longrightarrow> removalsSound (snaps ! i) (snaps ! Suc i))"
  by (auto simp: snapshotsSound_def)

lemma snapshotsSound_snoc:
  "snapshotsSound (snaps @ [s]) = (snapshotsSound snaps \<and> (snaps \<noteq> [] \<longrightarrow> removalsSound (last snaps) s))"
proof (cases "snaps = []")
  case True
  then show ?thesis by (simp add: snapshotsSound_def)
next
  case False
  then obtain n where n: "length snaps = Suc n" by (cases snaps) auto
  have last: "last snaps = snaps ! n" using False n by (simp add: last_conv_nth)
  have nth1: "\<And>i. i < Suc n \<Longrightarrow> (snaps @ [s]) ! i = snaps ! i" using n by (simp add: nth_append)
  have nth2: "(snaps @ [s]) ! Suc n = s" using n by (simp add: nth_append)
  show ?thesis
  proof
    assume a: "snapshotsSound (snaps @ [s])"
    have "\<And>i. Suc i < length snaps \<Longrightarrow> removalsSound (snaps ! i) (snaps ! Suc i)"
    proof -
      fix i assume i: "Suc i < length snaps"
      then have "removalsSound ((snaps @ [s]) ! i) ((snaps @ [s]) ! Suc i)"
        using a by (simp add: snapshotsSound_iff)
      then show "removalsSound (snaps ! i) (snaps ! Suc i)" using i n nth1 by simp
    qed
    moreover have "removalsSound ((snaps @ [s]) ! n) ((snaps @ [s]) ! Suc n)"
      using a n by (simp add: snapshotsSound_iff)
    ultimately show "snapshotsSound snaps \<and> (snaps \<noteq> [] \<longrightarrow> removalsSound (last snaps) s)"
      using last nth1[of n] nth2 by (simp add: snapshotsSound_iff)
  next
    assume a: "snapshotsSound snaps \<and> (snaps \<noteq> [] \<longrightarrow> removalsSound (last snaps) s)"
    have "\<And>i. Suc i < length (snaps @ [s]) \<Longrightarrow> removalsSound ((snaps @ [s]) ! i) ((snaps @ [s]) ! Suc i)"
    proof -
      fix i assume i: "Suc i < length (snaps @ [s])"
      show "removalsSound ((snaps @ [s]) ! i) ((snaps @ [s]) ! Suc i)"
      proof (cases "i = n")
        case True
        then show ?thesis using a False last nth1[of n] nth2 by simp
      next
        case False
        then have "Suc i < length snaps" using i n by simp
        then show ?thesis using a n nth1[of i] nth1[of "Suc i"] by (simp add: snapshotsSound_iff)
      qed
    qed
    then show "snapshotsSound (snaps @ [s])" by (simp add: snapshotsSound_iff)
  qed
qed

lemma wfGame_cells:
  "wfGame g \<Longrightarrow> r < 9 \<Longrightarrow> c < 9 \<Longrightarrow> cellAt (board g) r c = Num 0 \<Longrightarrow> set (cellAt (candidates g) r c) \<subseteq> set fullSet"
  by (auto simp: wfGame_def set_allCells)

lemma wfGameI:
  "is9x9 (board g) \<Longrightarrow> wfCands (candidates g) \<Longrightarrow>
   (\<And>r c. r < 9 \<Longrightarrow> c < 9 \<Longrightarrow> cellAt (board g) r c = Num 0 \<Longrightarrow> set (cellAt (candidates g) r c) \<subseteq> set fullSet)
   \<Longrightarrow> wfGame g"
  by (auto simp: wfGame_def set_allCells)

lemma wfGame_board: "wfGame g \<Longrightarrow> is9x9 (board g)" by (simp add: wfGame_def)
lemma wfGame_cands: "wfGame g \<Longrightarrow> wfCands (candidates g)" by (simp add: wfGame_def)

text \<open>Recording a snapshot of a well-formed session.\<close>

lemma addSnapshot_good:
  assumes wf: "wfGame g"
    and sound: "snapshotsSound (snapshots g)"
    and new: "snapshots g \<noteq> [] \<Longrightarrow>
       removalsSound (last (snapshots g))
         \<lparr>snBoard = board g, snCandidates = candidates g, kind = knd, variant = var,
          difficulty = diff, highlight = hl\<rparr>"
  shows "goodGame (addSnapshot g knd var hl diff)"
proof -
  have clone: "deepCloneCandidates (candidates g) = candidates g"
    using wf by (simp add: deepCloneCandidates_id wfGame_cands)
  have "wfGame (addSnapshot g knd var hl diff)" using wf by (simp add: wfGame_def addSnapshot_def)
  moreover have "synced (addSnapshot g knd var hl diff)"
    by (simp add: synced_def addSnapshot_def clone)
  moreover have "snapshotsSound (snapshots (addSnapshot g knd var hl diff))"
    using sound new by (simp add: addSnapshot_def snapshotsSound_snoc clone)
  ultimately show ?thesis by (simp add: goodGame_def)
qed

lemma stepOk_refl: "goodGame g \<Longrightarrow> stepOk g (False, g)"
  by (simp add: stepOk_def)

lemma stepOk_trans:
  assumes "stepOk g (ch1, g1)" "stepOk g1 (ch2, g2)"
  shows "stepOk g (ch1 \<or> ch2, g2)"
proof -
  have le1: "workLeft g1 \<le> workLeft g" using assms(1) by (cases ch1) (auto simp: stepOk_def)
  have le2: "workLeft g2 \<le> workLeft g1" using assms(2) by (cases ch2) (auto simp: stepOk_def)
  have "goodGame g2" using assms(2) by (simp add: stepOk_def)
  moreover have "\<not> (ch1 \<or> ch2) \<longrightarrow> g2 = g" using assms by (auto simp: stepOk_def)
  moreover have "(ch1 \<or> ch2) \<longrightarrow> workLeft g2 < workLeft g"
    using assms le1 le2 by (auto simp: stepOk_def)
  moreover have "\<exists>new. snapshots g2 = snapshots g @ new" using assms by (auto simp: stepOk_def)
  moreover have "\<forall>(r, c) \<in> set allCells.
      (cellAt (board g) r c \<noteq> Num 0 \<longrightarrow> cellAt (board g2) r c = cellAt (board g) r c)
      \<and> set (cellAt (candidates g2) r c) \<subseteq> set (cellAt (candidates g) r c)"
    using assms by (fastforce simp: stepOk_def)
  ultimately show ?thesis by (simp add: stepOk_def)
qed

lemma okStepD: "okStep f \<Longrightarrow> goodGame g \<Longrightarrow> stepOk g (f g)"
  by (simp add: okStep_def)

lemma stepOk_good: "stepOk g (ch, g') \<Longrightarrow> goodGame g'"
  by (simp add: stepOk_def)

lemma stepOk_False: "stepOk g (False, g') \<Longrightarrow> g' = g"
  by (simp add: stepOk_def)

lemma firstHit_stepOk:
  "(\<And>i. i \<in> set items \<Longrightarrow> okStep (body i)) \<Longrightarrow> goodGame g \<Longrightarrow> stepOk g (firstHit body items g)"
proof (induction items arbitrary: g)
  case Nil
  then show ?case by (simp add: stepOk_refl)
next
  case (Cons i rest)
  obtain ch g1 where b: "body i g = (ch, g1)" by (cases "body i g")
  have s1: "stepOk g (ch, g1)" using Cons.prems okStepD[of "body i" g] b by simp
  show ?case
  proof (cases ch)
    case True
    then show ?thesis using b s1 by simp
  next
    case False
    then have "g1 = g" using s1 by (simp add: stepOk_False)
    then show ?thesis using b False Cons by simp
  qed
qed

lemma firstHit_ok: "(\<And>i. i \<in> set items \<Longrightarrow> okStep (body i)) \<Longrightarrow> okStep (firstHit body items)"
  unfolding okStep_def using firstHit_stepOk[of items body, unfolded okStep_def] by blast

lemma scanLoop_stepOk:
  "(\<And>i. i \<in> set items \<Longrightarrow> okStep (body i)) \<Longrightarrow> stepOk g0 (ch, g) \<Longrightarrow>
   stepOk g0 (scanLoop body items (ch, g))"
proof (induction items arbitrary: ch g)
  case Nil
  then show ?case by simp
next
  case (Cons i rest)
  obtain ch1 g1 where b: "body i g = (ch1, g1)" by (cases "body i g")
  have s1: "stepOk g (ch1, g1)"
    using Cons.prems(1) okStepD[of "body i" g] stepOk_good[OF Cons.prems(2)] b by simp
  have "stepOk g0 (ch \<or> ch1, g1)" using stepOk_trans[OF Cons.prems(2) s1] .
  then have "stepOk g0 (scanLoop body rest (ch \<or> ch1, g1))"
    using Cons.IH[of "ch \<or> ch1" g1] Cons.prems(1) by simp
  then show ?case using b by simp
qed

lemma scanAll_stepOk:
  "(\<And>i. i \<in> set items \<Longrightarrow> okStep (body i)) \<Longrightarrow> goodGame g \<Longrightarrow> stepOk g (scanAll body items g)"
  unfolding scanAll_def by (rule scanLoop_stepOk) (simp_all add: stepOk_refl)

lemma scanAll_ok: "(\<And>i. i \<in> set items \<Longrightarrow> okStep (body i)) \<Longrightarrow> okStep (scanAll body items)"
  unfolding okStep_def using scanAll_stepOk[of items body, unfolded okStep_def] by blast

lemma gated_ok: "okStep step \<Longrightarrow> okStep (gated opts (flag, step))"
  by (simp add: okStep_def gated_def stepOk_refl)

lemma okStepE_D: "okStepE f \<Longrightarrow> goodGame g \<Longrightarrow> \<exists>res. f g = Inr res \<and> stepOk g res"
  by (simp add: okStepE_def)

lemma firstHitE_stepOk:
  "(\<And>i. i \<in> set items \<Longrightarrow> okStepE (body i)) \<Longrightarrow> goodGame g \<Longrightarrow>
   \<exists>res. firstHitE body items g = Inr res \<and> stepOk g res"
proof (induction items arbitrary: g)
  case Nil
  then show ?case by (simp add: stepOk_refl)
next
  case (Cons i rest)
  obtain ch g1 where b: "body i g = Inr (ch, g1)" and s1: "stepOk g (ch, g1)"
    using okStepE_D[of "body i" g] Cons.prems by auto
  show ?case
  proof (cases ch)
    case True
    then show ?thesis using b s1 by simp
  next
    case False
    then have "g1 = g" using s1 by (simp add: stepOk_False)
    then show ?thesis using b False Cons by simp
  qed
qed

lemma firstHitE_ok: "(\<And>i. i \<in> set items \<Longrightarrow> okStepE (body i)) \<Longrightarrow> okStepE (firstHitE body items)"
  unfolding okStepE_def using firstHitE_stepOk[of items body, unfolded okStepE_def] by blast

lemma gatedE_ok: "okStepE step \<Longrightarrow> okStepE (gatedE opts (flag, step))"
  by (auto simp: okStepE_def gatedE_def stepOk_refl)

lemma noError_ok: "okStep step \<Longrightarrow> okStepE (noError step)"
  by (simp add: okStepE_def okStep_def noError_def)

lemma goodGame_wf: "goodGame g \<Longrightarrow> wfGame g" by (simp add: goodGame_def)
lemma goodGame_synced: "goodGame g \<Longrightarrow> synced g" by (simp add: goodGame_def)
lemma goodGame_sound: "goodGame g \<Longrightarrow> snapshotsSound (snapshots g)" by (simp add: goodGame_def)

text \<open>The shared end of every elimination step.\<close>

lemma elim_result_ok:
  assumes good: "goodGame game"
    and wf': "wfCands cs'"
    and sub: "\<And>r c. set (cellAt cs' r c) \<subseteq> set (cellAt (candidates game) r c)"
    and rem: "\<forall>(r, c, d) \<in> set removed.
        r < 9 \<and> c < 9 \<and> d \<in> set (cellAt (candidates game) r c) \<and> d \<notin> set (cellAt cs' r c)"
    and same: "removed = [] \<Longrightarrow> cs' = candidates game"
    and hl: "removedCandidates hl = Some removed"
  shows "stepOk game (removed \<noteq> [],
           if removed \<noteq> [] then addSnapshot (game\<lparr>candidates := cs'\<rparr>) knd var (Some hl) diff
           else game\<lparr>candidates := cs'\<rparr>)"
proof (cases "removed = []")
  case True
  then show ?thesis using same good by (simp add: stepOk_refl)
next
  case False
  let ?g1 = "game\<lparr>candidates := cs'\<rparr>"
  let ?g2 = "addSnapshot ?g1 knd var (Some hl) diff"
  have wfg: "wfGame game" using good by (rule goodGame_wf)
  have wf1: "wfGame ?g1"
  proof (rule wfGameI)
    show "is9x9 (board ?g1)" using wfg by (simp add: wfGame_board)
    show "wfCands (candidates ?g1)" using wf' by simp
    fix r c assume "r < 9" "c < 9" "cellAt (board ?g1) r c = Num 0"
    then show "set (cellAt (candidates ?g1) r c) \<subseteq> set fullSet"
      using wfGame_cells[OF wfg, of r c] sub[of r c] by auto
  qed
  have sy: "snCandidates (last (snapshots game)) = candidates game" "snapshots game \<noteq> []"
    using goodGame_synced[OF good] by (auto simp: synced_def)
  have "removalsSound (last (snapshots ?g1))
         \<lparr>snBoard = board ?g1, snCandidates = candidates ?g1, kind = knd, variant = var,
          difficulty = diff, highlight = Some hl\<rparr>"
    using rem hl sy by (auto simp: removalsSound_def setHas_def)
  then have g2: "goodGame ?g2"
    using addSnapshot_good[OF wf1, of knd var diff "Some hl"] goodGame_sound[OF good] by simp
  obtain r c d where t: "(r, c, d) \<in> set removed" using False by (cases removed) auto
  have "card (candTriples cs') < card (candTriples (candidates game))"
    using candTriples_card_less[of cs' "candidates game" r c d] sub rem t by auto
  then have less: "workLeft ?g2 < workLeft game" by (simp add: workLeft_def addSnapshot_def)
  have ext: "\<exists>new. snapshots ?g2 = snapshots game @ new" by (simp add: addSnapshot_def)
  have keep: "\<forall>(r, c) \<in> set allCells.
      (cellAt (board game) r c \<noteq> Num 0 \<longrightarrow> cellAt (board ?g2) r c = cellAt (board game) r c)
      \<and> set (cellAt (candidates ?g2) r c) \<subseteq> set (cellAt (candidates game) r c)"
    using sub by (auto simp: addSnapshot_def)
  show ?thesis using False g2 less ext keep by (simp add: stepOk_def)
qed

lemma eliminateAndRecord_stepOk:
  assumes good: "goodGame game"
    and range: "\<forall>(r, c, d) \<in> set targets. r < 9 \<and> c < 9"
    and mk: "\<And>cs removed. removedCandidates (mk cs removed) = Some removed"
  shows "stepOk game (eliminateAndRecord targets knd var diff mk game)"
proof -
  obtain cs' removed where run: "deleteEach targets (candidates game) [] = (cs', removed)"
    by (cases "deleteEach targets (candidates game) []")
  have wfc: "wfCands (candidates game)" using good by (simp add: goodGame_wf wfGame_cands)
  from deleteEach_props[OF wfc range run]
  have p: "wfCands cs'" "\<And>r c. set (cellAt cs' r c) \<subseteq> set (cellAt (candidates game) r c)"
    "\<forall>(r, c, d) \<in> set removed.
        r < 9 \<and> c < 9 \<and> d \<in> set (cellAt (candidates game) r c) \<and> d \<notin> set (cellAt cs' r c)"
    "removed = [] \<Longrightarrow> cs' = candidates game"
    by auto
  have "stepOk game (removed \<noteq> [],
           if removed \<noteq> [] then addSnapshot (game\<lparr>candidates := cs'\<rparr>) knd (Some var) (Some (mk cs' removed)) diff
           else game\<lparr>candidates := cs'\<rparr>)"
    by (rule elim_result_ok[OF good p(1) p(2) p(3) p(4) mk])
  then show ?thesis using run by (auto simp: eliminateAndRecord_def Let_def)
qed

lemma stripPair_stepOk:
  assumes good: "goodGame game"
    and range: "fst cellA < 9" "snd cellA < 9" "fst cellB < 9" "snd cellB < 9"
  shows "stepOk game (stripPair cellA cellB d1 d2 var hlRows hlCols hlBoxes game)"
proof -
  let ?allowed = "[digitNum d1, digitNum d2]"
  let ?tsA = "map (\<lambda>d. (fst cellA, snd cellA, d))
                (filter (\<lambda>digit. digit \<notin> set ?allowed) (cellAt (candidates game) (fst cellA) (snd cellA)))"
  obtain csA remA where runA: "deleteEach ?tsA (candidates game) [] = (csA, remA)"
    by (cases "deleteEach ?tsA (candidates game) []")
  let ?tsB = "map (\<lambda>d. (fst cellB, snd cellB, d))
                (filter (\<lambda>digit. digit \<notin> set ?allowed) (cellAt csA (fst cellB) (snd cellB)))"
  obtain csB remB where runB: "deleteEach ?tsB csA remA = (csB, remB)"
    by (cases "deleteEach ?tsB csA remA")
  have wfc: "wfCands (candidates game)" using good by (simp add: goodGame_wf wfGame_cands)
  have rA: "\<forall>(r, c, d) \<in> set ?tsA. r < 9 \<and> c < 9" using range by auto
  have rB: "\<forall>(r, c, d) \<in> set ?tsB. r < 9 \<and> c < 9" using range by auto
  from deleteEach_props[OF wfc rA runA]
  have pA: "wfCands csA" "\<And>r c. set (cellAt csA r c) \<subseteq> set (cellAt (candidates game) r c)"
    "\<forall>(r, c, d) \<in> set remA.
        r < 9 \<and> c < 9 \<and> d \<in> set (cellAt (candidates game) r c) \<and> d \<notin> set (cellAt csA r c)"
    "remA = [] \<Longrightarrow> csA = candidates game"
    by auto
  from deleteEach_props[OF pA(1) rB runB]
  obtain new where pB: "wfCands csB" "\<And>r c. set (cellAt csB r c) \<subseteq> set (cellAt csA r c)"
    "remB = remA @ new"
    "\<forall>(r, c, d) \<in> set new. r < 9 \<and> c < 9 \<and> d \<in> set (cellAt csA r c) \<and> d \<notin> set (cellAt csB r c)"
    "new = [] \<Longrightarrow> csB = csA"
    by auto
  have sub: "\<And>r c. set (cellAt csB r c) \<subseteq> set (cellAt (candidates game) r c)"
    using pA(2) pB(2) by blast
  have rem: "\<forall>(r, c, d) \<in> set remB.
        r < 9 \<and> c < 9 \<and> d \<in> set (cellAt (candidates game) r c) \<and> d \<notin> set (cellAt csB r c)"
    using pA(2,3) pB(2,3,4) by fastforce
  have same: "remB = [] \<Longrightarrow> csB = candidates game" using pA(4) pB(3,5) by simp
  let ?hl = "\<lparr>rows = hlRows, cols = hlCols, blocks = Some [cellA, cellB], boxes = hlBoxes,
               hlCandidates = Some [(fst cellA, snd cellA, digitNum d1),
                                    (fst cellA, snd cellA, digitNum d2),
                                    (fst cellB, snd cellB, digitNum d1),
                                    (fst cellB, snd cellB, digitNum d2)],
               removedCandidates = Some remB\<rparr>"
  have hlp: "removedCandidates ?hl = Some remB" by simp
  have ok: "stepOk game (remB \<noteq> [],
           if remB \<noteq> [] then addSnapshot (game\<lparr>candidates := csB\<rparr>) ''Hidden Pair'' (Some var) (Some ?hl) 5
           else game\<lparr>candidates := csB\<rparr>)"
    by (rule elim_result_ok[OF good pB(1) sub rem same hlp])
  have flag: "(length remA > length ([]::triple list) \<or> length remB > length remA) = (remB \<noteq> [])"
    using pB(3) by auto
  show ?thesis using ok runA runB flag
    by (simp add: stripPair_def stripOtherCandidates_def Let_def)
qed

text \<open>Eliminating a digit from a list of cells.\<close>

lemma foldl_candDelete_props:
  assumes "wfCands cs" "\<forall>(r, c) \<in> set cells. r < 9 \<and> c < 9"
  shows "wfCands (foldl (\<lambda>cs (r, c). if P r c then candDelete cs r c d else cs) cs cells)
    \<and> (\<forall>r c. set (cellAt (foldl (\<lambda>cs (r, c). if P r c then candDelete cs r c d else cs) cs cells) r c)
          = (if (r, c) \<in> set cells \<and> P r c then set (cellAt cs r c) - {d} else set (cellAt cs r c)))"
  using assms
proof (induction cells arbitrary: cs)
  case Nil
  then show ?case by simp
next
  case (Cons cell rest)
  obtain r0 c0 where cell: "cell = (r0, c0)" by (cases cell)
  have rc: "r0 < 9" "c0 < 9" and rest: "\<forall>(r, c) \<in> set rest. r < 9 \<and> c < 9"
    using Cons.prems(2) cell by auto
  let ?cs1 = "if P r0 c0 then candDelete cs r0 c0 d else cs"
  have wf1: "wfCands ?cs1" using Cons.prems(1) rc by (simp add: wfCands_candDelete)
  have set1: "\<And>r c. set (cellAt ?cs1 r c) = (if (r, c) = (r0, c0) \<and> P r c then set (cellAt cs r c) - {d} else set (cellAt cs r c))"
    using Cons.prems(1) rc by (auto simp: cellAt_candDelete)
  from Cons.IH[OF wf1 rest]
  have ih: "wfCands (foldl (\<lambda>cs (r, c). if P r c then candDelete cs r c d else cs) ?cs1 rest)"
    "\<And>r c. set (cellAt (foldl (\<lambda>cs (r, c). if P r c then candDelete cs r c d else cs) ?cs1 rest) r c)
          = (if (r, c) \<in> set rest \<and> P r c then set (cellAt ?cs1 r c) - {d} else set (cellAt ?cs1 r c))"
    by auto
  have step: "foldl (\<lambda>cs (r, c). if P r c then candDelete cs r c d else cs) cs (cell # rest)
      = foldl (\<lambda>cs (r, c). if P r c then candDelete cs r c d else cs) ?cs1 rest"
    by (simp add: cell)
  show ?case unfolding step
  proof (intro conjI allI)
    show "wfCands (foldl (\<lambda>cs (r, c). if P r c then candDelete cs r c d else cs) ?cs1 rest)" by (rule ih(1))
    fix r c
    show "set (cellAt (foldl (\<lambda>cs (r, c). if P r c then candDelete cs r c d else cs) ?cs1 rest) r c)
        = (if (r, c) \<in> set (cell # rest) \<and> P r c then set (cellAt cs r c) - {d} else set (cellAt cs r c))"
      unfolding ih(2)[of r c] set1[of r c] by (auto simp: cell)
  qed
qed

lemma peerCells_range:
  assumes "row < 9" "col < 9"
  shows "\<forall>(r, c) \<in> set (peerCells row col). r < 9 \<and> c < 9"
proof -
  define sr where "sr = row - row mod 3"
  define sc where "sc = col - col mod 3"
  have sr: "sr \<le> 6" using assms(1) unfolding sr_def by presburger
  have sc: "sc \<le> 6" using assms(2) unfolding sc_def by presburger
  have box: "\<forall>(r, c) \<in> set (concat (map (\<lambda>r. concat (map (\<lambda>c.
          if sr + r \<noteq> row \<or> sc + c \<noteq> col then [(sr + r, sc + c)] else [])
        [0..<3])) [0..<3])). r < 9 \<and> c < 9"
    using sr sc by (auto split: if_splits)
  have rowp: "\<forall>(r, c) \<in> set (concat (map (\<lambda>c. if c \<noteq> col then [(row, c)] else []) [0..<9])). r < 9 \<and> c < 9"
    using assms by (auto split: if_splits)
  have colp: "\<forall>(r, c) \<in> set (concat (map (\<lambda>r. if r \<noteq> row then [(r, col)] else []) [0..<9])). r < 9 \<and> c < 9"
    using assms by (auto split: if_splits)
  have "peerCells row col =
      concat (map (\<lambda>c. if c \<noteq> col then [(row, c)] else []) [0..<9]) @
      concat (map (\<lambda>r. if r \<noteq> row then [(r, col)] else []) [0..<9]) @
      concat (map (\<lambda>r. concat (map (\<lambda>c.
          if sr + r \<noteq> row \<or> sc + c \<noteq> col then [(sr + r, sc + c)] else [])
        [0..<3])) [0..<3])"
    unfolding peerCells_def Let_def sr_def sc_def ..
  then show ?thesis using box rowp colp by (simp only: set_append ball_Un)
qed

lemma eliminateFromPeers_props:
  assumes "wfCands cs" "row < 9" "col < 9"
  shows "wfCands (eliminateFromPeers brd cs row col d)"
    and "set (cellAt (eliminateFromPeers brd cs row col d) r c)
          = (if (r, c) \<in> set (peerCells row col) \<and> cellAt brd r c = Num 0
             then set (cellAt cs r c) - {d} else set (cellAt cs r c))"
  using foldl_candDelete_props[OF assms(1) peerCells_range[OF assms(2,3)],
          of "\<lambda>r c. strictEq (cellAt brd r c) (Num 0)" d]
  by (simp_all add: eliminateFromPeers_def)

lemma emptyCells_gridSet:
  assumes "is9x9 brd" "row < 9" "col < 9" "digit \<noteq> Num 0"
  shows "emptyCells (gridSet brd row col digit) = emptyCells brd - {(row, col)}"
  using assms by (auto simp: emptyCells_def cellAt_gridSet)

lemma place_stepOk:
  assumes good: "goodGame game"
    and rc: "row < 9" "col < 9"
    and empty: "cellAt (board game) row col = Num 0"
    and digit: "digit \<in> set fullSet"
    and hl: "removedCandidates hl = None"
  shows "stepOk game (True, addSnapshot (place game row col digit) knd var (Some hl) diff)"
proof -
  let ?brd = "gridSet (board game) row col digit"
  let ?cs = "eliminateFromPeers ?brd (candidates game) row col digit"
  let ?g1 = "place game row col digit"
  let ?g2 = "addSnapshot ?g1 knd var (Some hl) diff"
  have wfg: "wfGame game" using good by (rule goodGame_wf)
  have wfc: "wfCands (candidates game)" using wfg by (rule wfGame_cands)
  have b9: "is9x9 (board game)" using wfg by (rule wfGame_board)
  have nz: "digit \<noteq> Num 0" using digit by (auto simp: fullSet_def)
  have g1: "board ?g1 = ?brd" "candidates ?g1 = ?cs" "snapshots ?g1 = snapshots game"
    by (simp_all add: place_def Let_def)
  have sub: "\<And>r c. set (cellAt ?cs r c) \<subseteq> set (cellAt (candidates game) r c)"
    using eliminateFromPeers_props(2)[OF wfc rc, of ?brd digit] by auto
  have wf1: "wfGame ?g1"
  proof (rule wfGameI)
    show "is9x9 (board ?g1)" using b9 by (simp add: g1 is9x9_gridSet)
    show "wfCands (candidates ?g1)" using eliminateFromPeers_props(1)[OF wfc rc] by (simp add: g1)
    fix r c assume a: "r < 9" "c < 9" "cellAt (board ?g1) r c = Num 0"
    then have "cellAt (board game) r c = Num 0"
      using nz b9 rc by (auto simp: g1 cellAt_gridSet split: if_splits)
    then show "set (cellAt (candidates ?g1) r c) \<subseteq> set fullSet"
      using wfGame_cells[OF wfg a(1,2)] sub[of r c] by (auto simp: g1)
  qed
  have "removalsSound (last (snapshots ?g1))
         \<lparr>snBoard = board ?g1, snCandidates = candidates ?g1, kind = knd, variant = var,
          difficulty = diff, highlight = Some hl\<rparr>"
    using hl by (simp add: removalsSound_def)
  then have g2: "goodGame ?g2"
    using addSnapshot_good[OF wf1, of knd var diff "Some hl"] goodGame_sound[OF good] by (simp add: g1)
  have "emptyCells ?brd = emptyCells (board game) - {(row, col)}"
    using emptyCells_gridSet[OF b9 rc nz] .
  moreover have "(row, col) \<in> emptyCells (board game)" using rc empty by (simp add: emptyCells_def)
  ultimately have "card (emptyCells ?brd) < card (emptyCells (board game))"
    using card_Diff1_less[OF finite_emptyCells, of "(row, col)" "board game"] by simp
  moreover have "card (candTriples ?cs) \<le> card (candTriples (candidates game))"
    using candTriples_card_mono[of ?cs "candidates game"] sub by simp
  ultimately have less: "workLeft ?g2 < workLeft game"
    by (simp add: workLeft_def addSnapshot_def g1)
  have ext: "\<exists>new. snapshots ?g2 = snapshots game @ new" by (simp add: addSnapshot_def g1)
  have keep: "\<forall>(r, c) \<in> set allCells.
      (cellAt (board game) r c \<noteq> Num 0 \<longrightarrow> cellAt (board ?g2) r c = cellAt (board game) r c)
      \<and> set (cellAt (candidates ?g2) r c) \<subseteq> set (cellAt (candidates game) r c)"
    using sub empty b9 rc by (auto simp: addSnapshot_def g1 cellAt_gridSet set_allCells)
  show ?thesis using g2 less ext keep by (simp add: stepOk_def)
qed

lemma boxFrom_range: "sr \<le> 6 \<Longrightarrow> sc \<le> 6 \<Longrightarrow> cell \<in> set (boxFrom sr sc) \<Longrightarrow> fst cell < 9 \<and> snd cell < 9"
  by (auto simp: boxFrom_def)

lemma set_allBoxes: "set allBoxes = {(br, bc). br < 3 \<and> bc < 3}"
  by (auto simp: allBoxes_def)

lemma boxCells_range: "br < 3 \<Longrightarrow> bc < 3 \<Longrightarrow> cell \<in> set (boxCells br bc) \<Longrightarrow> fst cell < 9 \<and> snd cell < 9"
  by (rule boxFrom_range[of "br * 3" "bc * 3"]) (simp_all add: boxCells_def)

lemma indexPairs_range: "(i, j) \<in> set (indexPairs n) \<Longrightarrow> i < n \<and> j < n"
  by (auto simp: indexPairs_def)

lemma indexTriples_range: "(i, j, k) \<in> set (indexTriples n) \<Longrightarrow> i < n \<and> j < n \<and> k < n"
  by (auto simp: indexTriples_def)

lemma unitDigits_range: "(u, d) \<in> set (unitDigits units) \<Longrightarrow> u \<in> set units \<and> 1 \<le> d \<and> d < 10"
  by (auto simp: unitDigits_def)

lemma digitNum_full: "1 \<le> d \<Longrightarrow> d < 10 \<Longrightarrow> digitNum d \<in> set fullSet"
proof -
  assume "1 \<le> d" "d < 10"
  then have "d \<in> {1, 2, 3, 4, 5, 6, 7, 8, 9}" by auto
  then show ?thesis by (auto simp: digitNum_def fullSet_def)
qed

lemma filter_nth_range:
  "i < length (filter P xs) \<Longrightarrow> filter P xs ! i \<in> set xs \<and> P (filter P xs ! i)"
  using nth_mem[of i "filter P xs"] by auto

lemma isEmptyCell_iff [simp]: "isEmptyCell game (r, c) = (cellAt (board game) r c = Num 0)"
  by (simp add: isEmptyCell_def)

lemma possibleAt_iff [simp]:
  "possibleAt game d (r, c) = (cellAt (board game) r c = Num 0 \<and> d \<in> set (cellAt (candidates game) r c))"
  by (simp add: possibleAt_def setHas_def)

section \<open>Naked singles\<close>

lemma nakedSingleAt_ok: "cell \<in> set allCells \<Longrightarrow> okStep (nakedSingleAt cell)"
proof -
  assume cell: "cell \<in> set allCells"
  obtain row col where rc: "cell = (row, col)" by (cases cell)
  have range: "row < 9" "col < 9" using cell rc by (auto simp: set_allCells)
  show ?thesis unfolding okStep_def
  proof (intro allI impI)
    fix game assume good: "goodGame game"
    show "stepOk game (nakedSingleAt cell game)"
    proof (cases "cellAt (board game) row col = Num 0 \<and> length (cellAt (candidates game) row col) = 1")
      case True
      then have "cellAt (candidates game) row col ! 0 \<in> set (cellAt (candidates game) row col)" by simp
      then have "cellAt (candidates game) row col ! 0 \<in> set fullSet"
        using wfGame_cells[OF goodGame_wf[OF good] range] True by blast
      then show ?thesis using True good range
        by (simp add: nakedSingleAt_def rc Let_def place_stepOk)
    next
      case False
      then show ?thesis using good by (auto simp: nakedSingleAt_def rc stepOk_refl)
    qed
  qed
qed

lemma applyNakedSingles_ok: "okStep (applyNakedSingles opts)"
proof -
  have "okStep (scanAll nakedSingleAt allCells)" by (rule scanAll_ok) (rule nakedSingleAt_ok)
  then show ?thesis by (auto simp: okStep_def applyNakedSingles_def stepOk_refl)
qed

section \<open>Hidden singles\<close>

lemma hiddenSingleInRow_ok:
  assumes "rd \<in> set (unitDigits [0..<9])" shows "okStep (hiddenSingleInRow rd)"
proof -
  obtain row d where rd: "rd = (row, d)" by (cases rd)
  have range: "row < 9" "1 \<le> d" "d < 10" using assms rd unitDigits_range[of row d "[0..<9]"] by auto
  show ?thesis unfolding okStep_def
  proof (intro allI impI)
    fix game assume good: "goodGame game"
    let ?cols = "filter (\<lambda>col. possibleAt game (digitNum d) (row, col)) [0..<9]"
    show "stepOk game (hiddenSingleInRow rd game)"
    proof (cases "\<not> isDigitInRow (board game) row (digitNum d) \<and> length ?cols = 1")
      case True
      then have "?cols ! 0 \<in> set [0..<9] \<and> possibleAt game (digitNum d) (row, ?cols ! 0)"
        using filter_nth_range[of 0 "\<lambda>col. possibleAt game (digitNum d) (row, col)" "[0..<9]"] by simp
      then have "?cols ! 0 < 9" "cellAt (board game) row (?cols ! 0) = Num 0" by auto
      then show ?thesis using True good range
        by (simp add: hiddenSingleInRow_def rd Let_def place_stepOk digitNum_full)
    next
      case False
      then show ?thesis using good by (auto simp: hiddenSingleInRow_def rd Let_def stepOk_refl)
    qed
  qed
qed

lemma hiddenSingleInColumn_ok:
  assumes "cd \<in> set (unitDigits [0..<9])" shows "okStep (hiddenSingleInColumn cd)"
proof -
  obtain col d where cd: "cd = (col, d)" by (cases cd)
  have range: "col < 9" "1 \<le> d" "d < 10" using assms cd unitDigits_range[of col d "[0..<9]"] by auto
  show ?thesis unfolding okStep_def
  proof (intro allI impI)
    fix game assume good: "goodGame game"
    let ?rows = "filter (\<lambda>row. possibleAt game (digitNum d) (row, col)) [0..<9]"
    show "stepOk game (hiddenSingleInColumn cd game)"
    proof (cases "\<not> isDigitInCol (board game) col (digitNum d) \<and> length ?rows = 1")
      case True
      then have "?rows ! 0 \<in> set [0..<9] \<and> possibleAt game (digitNum d) (?rows ! 0, col)"
        using filter_nth_range[of 0 "\<lambda>row. possibleAt game (digitNum d) (row, col)" "[0..<9]"] by simp
      then have "?rows ! 0 < 9" "cellAt (board game) (?rows ! 0) col = Num 0" by auto
      then show ?thesis using True good range
        by (simp add: hiddenSingleInColumn_def cd Let_def place_stepOk digitNum_full)
    next
      case False
      then show ?thesis using good by (auto simp: hiddenSingleInColumn_def cd Let_def stepOk_refl)
    qed
  qed
qed

lemma hiddenSingleInBox_ok:
  assumes "bd \<in> set (unitDigits allBoxes)" shows "okStep (hiddenSingleInBox bd)"
proof -
  obtain br bc d where bd: "bd = ((br, bc), d)" by (cases bd) auto
  have range: "br < 3" "bc < 3" "1 \<le> d" "d < 10"
    using assms bd unitDigits_range[of "(br, bc)" d allBoxes] by (auto simp: set_allBoxes)
  show ?thesis unfolding okStep_def
  proof (intro allI impI)
    fix game assume good: "goodGame game"
    let ?cells = "filter (possibleAt game (digitNum d)) (boxCells br bc)"
    show "stepOk game (hiddenSingleInBox bd game)"
    proof (cases "\<not> isDigitInBox (board game) br bc (digitNum d) \<and> length ?cells = 1")
      case True
      obtain r c where cell: "?cells ! 0 = (r, c)" by (cases "?cells ! 0")
      have "?cells ! 0 \<in> set (boxCells br bc) \<and> possibleAt game (digitNum d) (?cells ! 0)"
        using True filter_nth_range[of 0 "possibleAt game (digitNum d)" "boxCells br bc"] by simp
      then have "r < 9" "c < 9" "cellAt (board game) r c = Num 0"
        using cell boxCells_range[OF range(1,2), of "(r, c)"] by auto
      then show ?thesis using True good range cell
        by (simp add: hiddenSingleInBox_def bd Let_def place_stepOk digitNum_full)
    next
      case False
      then show ?thesis using good by (auto simp: hiddenSingleInBox_def bd Let_def stepOk_refl)
    qed
  qed
qed

lemma applyHiddenSingles_ok: "okStep (applyHiddenSingles opts)"
proof -
  have b: "okStep applyHiddenSinglesInBoxes"
    unfolding applyHiddenSinglesInBoxes_def[abs_def] by (rule firstHit_ok) (rule hiddenSingleInBox_ok)
  have r: "okStep applyHiddenSinglesInRows"
    unfolding applyHiddenSinglesInRows_def[abs_def] by (rule firstHit_ok) (rule hiddenSingleInRow_ok)
  have c: "okStep applyHiddenSinglesInColumns"
    unfolding applyHiddenSinglesInColumns_def[abs_def] by (rule firstHit_ok) (rule hiddenSingleInColumn_ok)
  have "okStep (firstHit (gated opts)
        [(hiddenSinglesBoxes, applyHiddenSinglesInBoxes),
         (hiddenSinglesRows, applyHiddenSinglesInRows),
         (hiddenSinglesCols, applyHiddenSinglesInColumns)])"
    by (rule firstHit_ok) (auto intro: gated_ok b r c)
  then show ?thesis by (auto simp: okStep_def applyHiddenSingles_def stepOk_refl)
qed

lemma emptyIdx_range:
  "i < length (filter P [0..<9]) \<Longrightarrow> filter P [0..<9] ! i < 9"
  using filter_nth_range[of i P "[0..<9]"] by auto

lemma emptyBoxCell_range:
  "br < 3 \<Longrightarrow> bc < 3 \<Longrightarrow> i < length (filter P (boxCells br bc)) \<Longrightarrow>
   fst (filter P (boxCells br bc) ! i) < 9 \<and> snd (filter P (boxCells br bc) ! i) < 9"
  using filter_nth_range[of i P "boxCells br bc"] boxCells_range[of br bc] by blast

section \<open>Naked pairs\<close>

lemma nakedPairInRow_ok: "row < 9 \<Longrightarrow> okStep (nakedPairInRow row emptyCols ij)"
  unfolding okStep_def
proof (intro allI impI)
  fix game assume row: "row < 9" and good: "goodGame game"
  obtain i j where ij: "ij = (i, j)" by (cases ij)
  show "stepOk game (nakedPairInRow row emptyCols ij game)"
    unfolding nakedPairInRow_def ij Let_def prod.case
    by (auto intro!: eliminateAndRecord_stepOk stepOk_refl good simp: row split: if_splits)
qed

lemma applyNakedPairsInRow_ok: "row < 9 \<Longrightarrow> okStep (applyNakedPairsInRow row)"
  unfolding okStep_def applyNakedPairsInRow_def Let_def
  by (auto intro!: firstHit_stepOk nakedPairInRow_ok)

lemma nakedPairInCol_ok: "col < 9 \<Longrightarrow> okStep (nakedPairInCol col emptyRows ij)"
  unfolding okStep_def
proof (intro allI impI)
  fix game assume col: "col < 9" and good: "goodGame game"
  obtain i j where ij: "ij = (i, j)" by (cases ij)
  show "stepOk game (nakedPairInCol col emptyRows ij game)"
    unfolding nakedPairInCol_def ij Let_def prod.case
    by (auto intro!: eliminateAndRecord_stepOk stepOk_refl good simp: col split: if_splits)
qed

lemma applyNakedPairsInCol_ok: "col < 9 \<Longrightarrow> okStep (applyNakedPairsInCol col)"
  unfolding okStep_def applyNakedPairsInCol_def Let_def
  by (auto intro!: firstHit_stepOk nakedPairInCol_ok)

lemma nakedPairInBox_ok:
  assumes cells: "\<And>k. k < length cells \<Longrightarrow> fst (cells ! k) < 9 \<and> snd (cells ! k) < 9"
  shows "okStep (nakedPairInBox box cells ij)"
  unfolding okStep_def
proof (intro allI impI)
  fix game assume good: "goodGame game"
  obtain i j where ij: "ij = (i, j)" by (cases ij)
  show "stepOk game (nakedPairInBox box cells ij game)"
    unfolding nakedPairInBox_def ij Let_def prod.case
    by (auto intro!: eliminateAndRecord_stepOk stepOk_refl good simp: cells split: if_splits)
qed

lemma applyNakedPairsInBox_ok:
  assumes "box \<in> set allBoxes" shows "okStep (applyNakedPairsInBox box)"
proof -
  have b: "fst box < 3" "snd box < 3" using assms by (auto simp: set_allBoxes)
  show ?thesis
    unfolding okStep_def applyNakedPairsInBox_def Let_def
    by (auto intro!: firstHit_stepOk nakedPairInBox_ok emptyBoxCell_range[OF b, THEN conjunct1]
        emptyBoxCell_range[OF b, THEN conjunct2])
qed

lemma applyNakedPairs_ok: "okStep (applyNakedPairs opts)"
proof -
  have "okStep (firstHit (gated opts)
        [(nakedPairsRows, firstHit applyNakedPairsInRow [0..<9]),
         (nakedPairsCols, firstHit applyNakedPairsInCol [0..<9]),
         (nakedPairsBoxes, firstHit applyNakedPairsInBox allBoxes)])"
    by (rule firstHit_ok)
       (auto intro!: gated_ok firstHit_ok applyNakedPairsInRow_ok applyNakedPairsInCol_ok
          applyNakedPairsInBox_ok)
  then show ?thesis by (auto simp: okStep_def applyNakedPairs_def stepOk_refl)
qed

section \<open>Naked triples\<close>

lemma nakedTripleInRow_ok: "row < 9 \<Longrightarrow> okStep (nakedTripleInRow row emptyCols ijk)"
  unfolding okStep_def
proof (intro allI impI)
  fix game assume row: "row < 9" and good: "goodGame game"
  obtain i j k where ijk: "ijk = (i, j, k)" by (cases ijk)
  show "stepOk game (nakedTripleInRow row emptyCols ijk game)"
    unfolding nakedTripleInRow_def ijk Let_def prod.case
    by (auto intro!: eliminateAndRecord_stepOk stepOk_refl good simp: row split: if_splits)
qed

lemma applyNakedTriplesInRow_ok: "row < 9 \<Longrightarrow> okStep (applyNakedTriplesInRow row)"
  unfolding okStep_def applyNakedTriplesInRow_def Let_def
  by (auto intro!: scanAll_stepOk nakedTripleInRow_ok)

lemma nakedTripleInColumn_ok: "col < 9 \<Longrightarrow> okStep (nakedTripleInColumn col emptyRows ijk)"
  unfolding okStep_def
proof (intro allI impI)
  fix game assume col: "col < 9" and good: "goodGame game"
  obtain i j k where ijk: "ijk = (i, j, k)" by (cases ijk)
  show "stepOk game (nakedTripleInColumn col emptyRows ijk game)"
    unfolding nakedTripleInColumn_def ijk Let_def prod.case
    by (auto intro!: eliminateAndRecord_stepOk stepOk_refl good simp: col split: if_splits)
qed

lemma applyNakedTriplesInColumn_ok: "col < 9 \<Longrightarrow> okStep (applyNakedTriplesInColumn col)"
  unfolding okStep_def applyNakedTriplesInColumn_def Let_def
  by (auto intro!: scanAll_stepOk nakedTripleInColumn_ok)

lemma nakedTripleInBox_ok:
  assumes box: "fst box < 3" "snd box < 3"
  shows "okStep (nakedTripleInBox box cells ijk)"
  unfolding okStep_def
proof (intro allI impI)
  fix game assume good: "goodGame game"
  obtain i j k where ijk: "ijk = (i, j, k)" by (cases ijk)
  have range: "\<And>cell. cell \<in> set (boxCells (fst box) (snd box)) \<Longrightarrow> fst cell < 9 \<and> snd cell < 9"
    using boxCells_range[OF box] by blast
  show "stepOk game (nakedTripleInBox box cells ijk game)"
    unfolding nakedTripleInBox_def ijk Let_def prod.case
    by (auto intro!: eliminateAndRecord_stepOk stepOk_refl good dest: range split: if_splits)
qed

lemma applyNakedTriplesInBox_ok:
  assumes "box \<in> set allBoxes" shows "okStep (applyNakedTriplesInBox box)"
proof -
  have b: "fst box < 3" "snd box < 3" using assms by (auto simp: set_allBoxes)
  show ?thesis
    unfolding okStep_def applyNakedTriplesInBox_def Let_def
    by (auto intro!: scanAll_stepOk nakedTripleInBox_ok[OF b])
qed

lemma applyNakedTriples_ok: "okStep (applyNakedTriples opts)"
proof -
  have "okStep (firstHit (gated opts)
        [(nakedTriplesRows, firstHit applyNakedTriplesInRow [0..<9]),
         (nakedTriplesCols, firstHit applyNakedTriplesInColumn [0..<9]),
         (nakedTriplesBoxes, firstHit applyNakedTriplesInBox allBoxes)])"
    by (rule firstHit_ok)
       (auto intro!: gated_ok firstHit_ok applyNakedTriplesInRow_ok applyNakedTriplesInColumn_ok
          applyNakedTriplesInBox_ok)
  then show ?thesis by (auto simp: okStep_def applyNakedTriples_def stepOk_refl)
qed

section \<open>Box-line reduction\<close>

lemma eliminateDigitFromBox_stepOk:
  assumes good: "goodGame game" and box: "boxRow < 3" "boxCol < 3"
  shows "stepOk game (eliminateDigitFromBox game boxRow boxCol digit excludeRow excludeCol)"
proof -
  have range: "\<And>cell. cell \<in> set (boxCells boxRow boxCol) \<Longrightarrow> fst cell < 9 \<and> snd cell < 9"
    using boxCells_range[OF box] by blast
  show ?thesis
    unfolding eliminateDigitFromBox_def Let_def
    by (rule eliminateAndRecord_stepOk[OF good]) (auto dest: range split: if_splits)
qed

lemma div3_range: "(x::nat) < 9 \<Longrightarrow> x div 3 < 3" by simp

lemma boxLineInRow_ok:
  assumes "rd \<in> set (unitDigits [0..<9])" shows "okStep (boxLineInRow rd)"
proof -
  obtain row d where rd: "rd = (row, d)" by (cases rd)
  have range: "row < 9" using assms rd unitDigits_range[of row d "[0..<9]"] by auto
  show ?thesis unfolding okStep_def
  proof (intro allI impI)
    fix game assume good: "goodGame game"
    let ?cols = "filter (\<lambda>col. possibleAt game (digitNum d) (row, col)) [0..<9]"
    have c0: "1 < length ?cols \<Longrightarrow> (?cols ! 0) div 3 < 3"
    proof -
      assume "1 < length ?cols"
      then have "0 < length ?cols" by linarith
      then have "?cols ! 0 < 9" by (rule emptyIdx_range)
      then show ?thesis by (rule div3_range)
    qed
    have rb: "row div 3 < 3" using range by simp
    show "stepOk game (boxLineInRow rd game)"
      unfolding boxLineInRow_def rd Let_def prod.case
      using c0 rb good
      by (auto intro!: eliminateDigitFromBox_stepOk stepOk_refl)
  qed
qed

lemma boxLineInColumn_ok:
  assumes "cd \<in> set (unitDigits [0..<9])" shows "okStep (boxLineInColumn cd)"
proof -
  obtain col d where cd: "cd = (col, d)" by (cases cd)
  have range: "col < 9" using assms cd unitDigits_range[of col d "[0..<9]"] by auto
  show ?thesis unfolding okStep_def
  proof (intro allI impI)
    fix game assume good: "goodGame game"
    let ?rows = "filter (\<lambda>row. possibleAt game (digitNum d) (row, col)) [0..<9]"
    have r0: "1 < length ?rows \<Longrightarrow> (?rows ! 0) div 3 < 3"
    proof -
      assume "1 < length ?rows"
      then have "0 < length ?rows" by linarith
      then have "?rows ! 0 < 9" by (rule emptyIdx_range)
      then show ?thesis by (rule div3_range)
    qed
    have cb: "col div 3 < 3" using range by simp
    show "stepOk game (boxLineInColumn cd game)"
      unfolding boxLineInColumn_def cd Let_def prod.case
      using r0 cb good
      by (auto intro!: eliminateDigitFromBox_stepOk stepOk_refl)
  qed
qed

lemma applyBoxLineReduction_ok: "okStep (applyBoxLineReduction opts)"
proof -
  have r: "okStep applyBoxLineReductionInRows"
    unfolding applyBoxLineReductionInRows_def[abs_def] by (rule firstHit_ok) (rule boxLineInRow_ok)
  have c: "okStep applyBoxLineReductionInColumns"
    unfolding applyBoxLineReductionInColumns_def[abs_def] by (rule firstHit_ok) (rule boxLineInColumn_ok)
  have "okStep (firstHit (gated opts)
        [(boxLineReductionRows, applyBoxLineReductionInRows),
         (boxLineReductionCols, applyBoxLineReductionInColumns)])"
    by (rule firstHit_ok) (auto intro: gated_ok r c)
  then show ?thesis by (auto simp: okStep_def applyBoxLineReduction_def stepOk_refl)
qed

section \<open>X-Wing\<close>

lemma xWingRowPair_ok:
  assumes pos: "\<And>r k. r < 9 \<Longrightarrow> k < length (positions ! r) \<Longrightarrow> positions ! r ! k < 9"
    and rr: "rr \<in> set (indexPairs 9)"
  shows "okStep (xWingRowPair d positions rr)"
  unfolding okStep_def
proof (intro allI impI)
  fix game assume good: "goodGame game"
  obtain r1 r2 where r: "rr = (r1, r2)" by (cases rr)
  have r1: "r1 < 9" using rr r indexPairs_range[of r1 r2 9] by simp
  have c: "length (positions ! r1) = 2 \<Longrightarrow> positions ! r1 ! 0 < 9 \<and> positions ! r1 ! 1 < 9"
    using pos[OF r1, of 0] pos[OF r1, of 1] by simp
  show "stepOk game (xWingRowPair d positions rr game)"
    unfolding xWingRowPair_def r Let_def prod.case
    using c by (auto intro!: eliminateAndRecord_stepOk stepOk_refl good split: if_splits)
qed

lemma positions_range:
  "r < 9 \<Longrightarrow> k < length (map (\<lambda>r. filter (P r) [0..<9]) [0..<9] ! r) \<Longrightarrow>
   map (\<lambda>r. filter (P r) [0..<9]) [0..<9] ! r ! k < 9"
  using emptyIdx_range[of k "P r"] by simp

lemma applyXWingRows_ok: "okStep (applyXWingRows d)"
  unfolding okStep_def applyXWingRows_def Let_def
  by (intro allI impI scanAll_stepOk xWingRowPair_ok positions_range)

lemma xWingColumnPair_ok:
  assumes pos: "\<And>c k. c < 9 \<Longrightarrow> k < length (positions ! c) \<Longrightarrow> positions ! c ! k < 9"
    and cc: "cc \<in> set (indexPairs 9)"
  shows "okStep (xWingColumnPair d positions cc)"
  unfolding okStep_def
proof (intro allI impI)
  fix game assume good: "goodGame game"
  obtain c1 c2 where c: "cc = (c1, c2)" by (cases cc)
  have c1: "c1 < 9" using cc c indexPairs_range[of c1 c2 9] by simp
  have r: "length (positions ! c1) = 2 \<Longrightarrow> positions ! c1 ! 0 < 9 \<and> positions ! c1 ! 1 < 9"
    using pos[OF c1, of 0] pos[OF c1, of 1] by simp
  show "stepOk game (xWingColumnPair d positions cc game)"
    unfolding xWingColumnPair_def c Let_def prod.case
    using r by (auto intro!: eliminateAndRecord_stepOk stepOk_refl good split: if_splits)
qed

lemma applyXWingColumns_ok: "okStep (applyXWingColumns d)"
  unfolding okStep_def applyXWingColumns_def Let_def
  by (intro allI impI scanAll_stepOk xWingColumnPair_ok positions_range)

lemma applyXWing_ok: "okStep (applyXWing opts)"
proof -
  have "okStep (firstHit (gated opts)
        (concat (map (\<lambda>d. [(xWingRows, applyXWingRows (digitNum d)),
                           (xWingCols, applyXWingColumns (digitNum d))]) [1..<10])))"
    by (rule firstHit_ok) (auto intro!: gated_ok applyXWingRows_ok applyXWingColumns_ok)
  then show ?thesis by (auto simp: okStep_def applyXWing_def stepOk_refl)
qed

section \<open>Hidden pairs\<close>

lemma pushAll_props:
  assumes "\<forall>(d, p) \<in> set entries. d \<in> set fullSet \<and> Q p"
    and "lo \<le> 1" "length pos = 10" "\<forall>l \<in> set pos. \<forall>p \<in> set l. Q p"
  shows "\<exists>pos'. pushAll lo pos entries = Inr pos' \<and> length pos' = 10 \<and> (\<forall>l \<in> set pos'. \<forall>p \<in> set l. Q p)"
  using assms
proof (induction entries arbitrary: pos)
  case Nil
  then show ?case by simp
next
  case (Cons e rest)
  obtain d p where e: "e = (d, p)" by (cases e)
  have d: "d \<in> set fullSet" and q: "Q p" using Cons.prems(1) e by auto
  then obtain n where n: "d = Num n" "1 \<le> n" "n \<le> 9" by (auto simp: fullSet_def)
  let ?pos1 = "pos[nat n := pos ! nat n @ [p]]"
  have idx: "nat n < length pos" using n Cons.prems(3) by simp
  have "\<forall>l \<in> set ?pos1. \<forall>p \<in> set l. Q p"
  proof
    fix l assume "l \<in> set ?pos1"
    then have "l = pos ! nat n @ [p] \<or> l \<in> set pos"
      using set_update_subset_insert[of pos "nat n" "pos ! nat n @ [p]"] by auto
    then show "\<forall>p \<in> set l. Q p" using Cons.prems(4) q nth_mem[OF idx] by auto
  qed
  moreover have "length ?pos1 = 10" using Cons.prems(3) by simp
  moreover have "\<forall>(d, p) \<in> set rest. d \<in> set fullSet \<and> Q p" using Cons.prems(1) by simp
  ultimately have "\<exists>pos'. pushAll lo ?pos1 rest = Inr pos' \<and> length pos' = 10 \<and> (\<forall>l \<in> set pos'. \<forall>p \<in> set l. Q p)"
    using Cons.IH[of ?pos1] Cons.prems(2) by blast
  then show ?case using e n Cons.prems(2) by simp
qed

lemma positionsForDigit_props:
  assumes wf: "wfGame game" and cells: "\<forall>cell \<in> set cells. fst cell < 9 \<and> snd cell < 9 \<and> Q (proj cell)"
    and lo: "lo \<le> 1"
  shows "\<exists>pos. positionsForDigit lo game cells proj = Inr pos \<and> length pos = 10
           \<and> (\<forall>l \<in> set pos. \<forall>p \<in> set l. Q p)"
proof -
  let ?entries = "concat (map (\<lambda>cell. if isEmptyCell game cell
            then map (\<lambda>d. (d, proj cell)) (cellAt (candidates game) (fst cell) (snd cell))
            else []) cells)"
  have e: "\<forall>(d, p) \<in> set ?entries. d \<in> set fullSet \<and> Q p"
  proof (clarsimp split: if_splits)
    fix d r c assume a: "(r, c) \<in> set cells" "cellAt (board game) r c = Num 0" "d \<in> set (cellAt (candidates game) r c)"
    then have "r < 9" "c < 9" "Q (proj (r, c))" using cells by auto
    then show "d \<in> set fullSet \<and> Q (proj (r, c))"
      using wfGame_cells[OF wf, of r c] a by auto
  qed
  have "length (replicate 10 ([]::'a list)) = 10" "\<forall>l \<in> set (replicate 10 ([]::'a list)). \<forall>p \<in> set l. Q p"
    by simp_all
  then show ?thesis
    unfolding positionsForDigit_def using pushAll_props[of ?entries Q lo "replicate 10 []"] e lo by blast
qed

lemma digitPairs_range: "(d1, d2) \<in> set digitPairs \<Longrightarrow> d1 < 10 \<and> d2 < 10"
  by (auto simp: digitPairs_def)

lemma pos_two:
  "length pos = 10 \<Longrightarrow> \<forall>l \<in> set pos. \<forall>p \<in> set l. Q p \<Longrightarrow> d < 10 \<Longrightarrow> length (pos ! d) = 2 \<Longrightarrow>
   Q (pos ! d ! 0) \<and> Q (pos ! d ! 1)"
proof -
  assume a: "length pos = 10" "\<forall>l \<in> set pos. \<forall>p \<in> set l. Q p" "d < 10" "length (pos ! d) = 2"
  have "pos ! d \<in> set pos" using a(1,3) by simp
  moreover have "pos ! d ! 0 \<in> set (pos ! d)" "pos ! d ! 1 \<in> set (pos ! d)" using a(4) by simp_all
  ultimately show ?thesis using a(2) by blast
qed

lemma hiddenPairInRow_ok:
  assumes "row < 9" "length pos = 10" "\<forall>l \<in> set pos. \<forall>p \<in> set l. p < 9" "dd \<in> set digitPairs"
  shows "okStep (hiddenPairInRow row pos dd)"
  unfolding okStep_def
proof (intro allI impI)
  fix game assume good: "goodGame game"
  obtain d1 d2 where dd: "dd = (d1, d2)" by (cases dd)
  have d1: "d1 < 10" using assms(4) dd digitPairs_range by blast
  have two: "length (pos ! d1) = 2 \<Longrightarrow> pos ! d1 ! 0 < 9 \<and> pos ! d1 ! 1 < 9"
    using pos_two[OF assms(2,3) d1] by blast
  show "stepOk game (hiddenPairInRow row pos dd game)"
    unfolding hiddenPairInRow_def dd Let_def prod.case
    using two assms(1) by (auto intro!: stripPair_stepOk stepOk_refl good)
qed

lemma hiddenPairInColumn_ok:
  assumes "col < 9" "length pos = 10" "\<forall>l \<in> set pos. \<forall>p \<in> set l. p < 9" "dd \<in> set digitPairs"
  shows "okStep (hiddenPairInColumn col pos dd)"
  unfolding okStep_def
proof (intro allI impI)
  fix game assume good: "goodGame game"
  obtain d1 d2 where dd: "dd = (d1, d2)" by (cases dd)
  have d1: "d1 < 10" using assms(4) dd digitPairs_range by blast
  have two: "length (pos ! d1) = 2 \<Longrightarrow> pos ! d1 ! 0 < 9 \<and> pos ! d1 ! 1 < 9"
    using pos_two[OF assms(2,3) d1] by blast
  show "stepOk game (hiddenPairInColumn col pos dd game)"
    unfolding hiddenPairInColumn_def dd Let_def prod.case
    using two assms(1) by (auto intro!: stripPair_stepOk stepOk_refl good)
qed

lemma hiddenPairInBox_ok:
  assumes "length pos = 10" "\<forall>l \<in> set pos. \<forall>p \<in> set l. fst p < 9 \<and> snd p < 9" "dd \<in> set digitPairs"
  shows "okStep (hiddenPairInBox box pos dd)"
  unfolding okStep_def
proof (intro allI impI)
  fix game assume good: "goodGame game"
  obtain d1 d2 where dd: "dd = (d1, d2)" by (cases dd)
  have d1: "d1 < 10" using assms(3) dd digitPairs_range by blast
  have two: "length (pos ! d1) = 2 \<Longrightarrow>
      (fst (pos ! d1 ! 0) < 9 \<and> snd (pos ! d1 ! 0) < 9) \<and> (fst (pos ! d1 ! 1) < 9 \<and> snd (pos ! d1 ! 1) < 9)"
    using pos_two[OF assms(1,2) d1] by blast
  show "stepOk game (hiddenPairInBox box pos dd game)"
    unfolding hiddenPairInBox_def dd Let_def prod.case
    using two by (auto intro!: stripPair_stepOk stepOk_refl good)
qed

lemma applyHiddenPairsInRow_ok: "row < 9 \<Longrightarrow> okStepE (applyHiddenPairsInRow row)"
  unfolding okStepE_def
proof (intro allI impI)
  fix game assume row: "row < 9" and good: "goodGame game"
  have "\<forall>cell \<in> set (map (\<lambda>col. (row, col)) [0..<9]). fst cell < 9 \<and> snd cell < 9 \<and> snd cell < 9"
    using row by auto
  from positionsForDigit_props[OF goodGame_wf[OF good], of "map (\<lambda>col. (row, col)) [0..<9]" "\<lambda>p. p < 9" snd 0, OF this]
  obtain pos where pos: "positionsForDigit 0 game (map (\<lambda>col. (row, col)) [0..<9]) snd = Inr pos"
    "length pos = 10" "\<forall>l \<in> set pos. \<forall>p \<in> set l. p < 9" by auto
  have "stepOk game (scanAll (hiddenPairInRow row pos) digitPairs game)"
    by (rule scanAll_stepOk[OF hiddenPairInRow_ok[OF row pos(2,3)] good])
  moreover obtain a b where "scanAll (hiddenPairInRow row pos) digitPairs game = (a, b)"
    by (cases "scanAll (hiddenPairInRow row pos) digitPairs game")
  moreover have "stepOk game (False, game)" using good by (rule stepOk_refl)
  ultimately show "\<exists>res. applyHiddenPairsInRow row game = Inr res \<and> stepOk game res"
    using pos(1) by (auto simp: applyHiddenPairsInRow_def Let_def)
qed

lemma applyHiddenPairsInColumn_ok: "col < 9 \<Longrightarrow> okStepE (applyHiddenPairsInColumn col)"
  unfolding okStepE_def
proof (intro allI impI)
  fix game assume col: "col < 9" and good: "goodGame game"
  have "\<forall>cell \<in> set (map (\<lambda>row. (row, col)) [0..<9]). fst cell < 9 \<and> snd cell < 9 \<and> fst cell < 9"
    using col by auto
  from positionsForDigit_props[OF goodGame_wf[OF good], of "map (\<lambda>row. (row, col)) [0..<9]" "\<lambda>p. p < 9" fst 0, OF this]
  obtain pos where pos: "positionsForDigit 0 game (map (\<lambda>row. (row, col)) [0..<9]) fst = Inr pos"
    "length pos = 10" "\<forall>l \<in> set pos. \<forall>p \<in> set l. p < 9" by auto
  have "stepOk game (scanAll (hiddenPairInColumn col pos) digitPairs game)"
    by (rule scanAll_stepOk[OF hiddenPairInColumn_ok[OF col pos(2,3)] good])
  moreover obtain a b where "scanAll (hiddenPairInColumn col pos) digitPairs game = (a, b)"
    by (cases "scanAll (hiddenPairInColumn col pos) digitPairs game")
  moreover have "stepOk game (False, game)" using good by (rule stepOk_refl)
  ultimately show "\<exists>res. applyHiddenPairsInColumn col game = Inr res \<and> stepOk game res"
    using pos(1) by (auto simp: applyHiddenPairsInColumn_def Let_def)
qed

lemma applyHiddenPairsInBox_ok:
  assumes "box \<in> set allBoxes" shows "okStepE (applyHiddenPairsInBox box)"
  unfolding okStepE_def
proof (intro allI impI)
  fix game assume good: "goodGame game"
  have b: "fst box < 3" "snd box < 3" using assms by (auto simp: set_allBoxes)
  let ?cells = "filter (isEmptyCell game) (boxCells (fst box) (snd box))"
  have "\<forall>cell \<in> set ?cells. fst cell < 9 \<and> snd cell < 9 \<and> (fst ((\<lambda>cell. cell) cell) < 9 \<and> snd ((\<lambda>cell. cell) cell) < 9)"
    using boxCells_range[OF b] by auto
  from positionsForDigit_props[OF goodGame_wf[OF good], of ?cells "\<lambda>p. fst p < 9 \<and> snd p < 9" "\<lambda>cell. cell" 1, OF this]
  obtain pos where pos: "positionsForDigit 1 game ?cells (\<lambda>cell. cell) = Inr pos"
    "length pos = 10" "\<forall>l \<in> set pos. \<forall>p \<in> set l. fst p < 9 \<and> snd p < 9" by auto
  have "stepOk game (scanAll (hiddenPairInBox box pos) digitPairs game)"
    by (rule scanAll_stepOk[OF hiddenPairInBox_ok[OF pos(2,3)] good])
  moreover obtain a b where "scanAll (hiddenPairInBox box pos) digitPairs game = (a, b)"
    by (cases "scanAll (hiddenPairInBox box pos) digitPairs game")
  moreover have "stepOk game (False, game)" using good by (rule stepOk_refl)
  ultimately show "\<exists>res. applyHiddenPairsInBox box game = Inr res \<and> stepOk game res"
    using pos(1) by (auto simp: applyHiddenPairsInBox_def Let_def)
qed

lemma applyHiddenPairs_ok: "okStepE (applyHiddenPairs opts)"
proof -
  have "okStepE (firstHitE (gatedE opts)
        [(hiddenPairsBoxes, firstHitE applyHiddenPairsInBox allBoxes),
         (hiddenPairsRows, firstHitE applyHiddenPairsInRow [0..<9]),
         (hiddenPairsCols, firstHitE applyHiddenPairsInColumn [0..<9])])"
    by (rule firstHitE_ok)
       (auto intro!: gatedE_ok firstHitE_ok applyHiddenPairsInRow_ok applyHiddenPairsInColumn_ok
          applyHiddenPairsInBox_ok)
  then show ?thesis by (auto simp: okStepE_def applyHiddenPairs_def stepOk_refl)
qed

section \<open>The initial session\<close>

lemma is9x9_full: "is9x9 (replicate 9 (replicate 9 v))"
  by (simp add: is9x9_def)

lemma cellAt_full: "r < 9 \<Longrightarrow> c < 9 \<Longrightarrow> cellAt (replicate 9 (replicate 9 v)) r c = v"
  by (simp add: cellAt_def)

lemma distinct_fullSet: "distinct fullSet"
  by (simp add: fullSet_def)

lemma buildCandidates_props:
  "wfCands (buildCandidates brd)
   \<and> (\<forall>r c. r < 9 \<longrightarrow> c < 9 \<longrightarrow> cellAt brd r c = Num 0 \<longrightarrow> set (cellAt (buildCandidates brd) r c) \<subseteq> set fullSet)"
proof -
  let ?step = "\<lambda>cs (row, col).
         let val = cellAt brd row col in
         if \<not> strictEq val (Num 0)
         then eliminateFromPeers brd (gridSet cs row col (newSet [val])) row col val
         else cs"
  let ?inv = "\<lambda>cs. wfCands cs
     \<and> (\<forall>r c. r < 9 \<longrightarrow> c < 9 \<longrightarrow> cellAt brd r c = Num 0 \<longrightarrow> set (cellAt cs r c) \<subseteq> set fullSet)"
  have step: "\<And>cs cell. cell \<in> set allCells \<Longrightarrow> ?inv cs \<Longrightarrow> ?inv (?step cs cell)"
  proof -
    fix cs cell assume cell: "cell \<in> set allCells" and inv: "?inv cs"
    obtain row col where rc: "cell = (row, col)" by (cases cell)
    have range: "row < 9" "col < 9" using cell rc by (auto simp: set_allCells)
    show "?inv (?step cs cell)"
    proof (cases "cellAt brd row col = Num 0")
      case True
      then show ?thesis using inv rc by simp
    next
      case False
      let ?cs1 = "gridSet cs row col (newSet [cellAt brd row col])"
      have wf1: "wfCands ?cs1"
        using inv range by (auto intro!: wfCandsI simp: is9x9_gridSet wfCands_9x9 cellAt_gridSet wfCands_cell)
      have e1: "\<And>r c. r < 9 \<Longrightarrow> c < 9 \<Longrightarrow> cellAt brd r c = Num 0 \<Longrightarrow> set (cellAt ?cs1 r c) \<subseteq> set fullSet"
        using inv range False by (auto simp: cellAt_gridSet wfCands_9x9)
      have "wfCands (eliminateFromPeers brd ?cs1 row col (cellAt brd row col))"
        using eliminateFromPeers_props(1)[OF wf1 range] .
      moreover have "\<And>r c. set (cellAt (eliminateFromPeers brd ?cs1 row col (cellAt brd row col)) r c)
          \<subseteq> set (cellAt ?cs1 r c)"
        using eliminateFromPeers_props(2)[OF wf1 range, of brd "cellAt brd row col"] by auto
      ultimately show ?thesis using e1 False rc by (simp add: Let_def) blast
    qed
  qed
  have fold: "\<And>cells cs. set cells \<subseteq> set allCells \<Longrightarrow> ?inv cs \<Longrightarrow> ?inv (foldl ?step cs cells)"
  proof -
    fix cells :: "(nat \<times> nat) list" and cs
    show "set cells \<subseteq> set allCells \<Longrightarrow> ?inv cs \<Longrightarrow> ?inv (foldl ?step cs cells)"
    proof (induction cells arbitrary: cs)
      case Nil
      then show ?case by simp
    next
      case (Cons cell rest)
      have "?inv (?step cs cell)" using step[of cell cs] Cons.prems by simp
      then show ?case using Cons.IH[of "?step cs cell"] Cons.prems(1) by simp
    qed
  qed
  have init: "?inv (replicate 9 (replicate 9 fullSet))"
    by (auto intro!: wfCandsI simp: is9x9_full cellAt_full distinct_fullSet)
  show ?thesis unfolding buildCandidates_def using fold[OF subset_refl init] .
qed

lemma initialGame_good: "is9x9 m \<Longrightarrow> goodGame (initialGame m)"
proof -
  assume m: "is9x9 m"
  let ?g = "\<lparr>board = m, candidates = buildCandidates m, snapshots = []\<rparr>"
  have wf: "wfGame ?g"
  proof (rule wfGameI)
    show "is9x9 (board ?g)" using m by simp
    show "wfCands (candidates ?g)" using buildCandidates_props[of m] by simp
    fix r c assume "r < 9" "c < 9" "cellAt (board ?g) r c = Num 0"
    then show "set (cellAt (candidates ?g) r c) \<subseteq> set fullSet"
      using buildCandidates_props[of m] by simp
  qed
  have "goodGame (addSnapshot ?g ''Initial Board'' None None 0)"
    by (rule addSnapshot_good[OF wf]) (simp_all add: snapshotsSound_def)
  then show ?thesis by (simp add: initialGame_def)
qed

lemma initialGame_board [simp]: "board (initialGame m) = m"
  by (simp add: initialGame_def addSnapshot_def)

section \<open>One pass and the loop\<close>

lemma unlessChanged_simps [simp]:
  "unlessChanged s (Inl e) = Inl e"
  "unlessChanged s (Inr (True, g)) = Inr (True, g)"
  "unlessChanged s (Inr (False, g)) = s g"
  by (simp_all add: unlessChanged_def)

lemma chain_stuck:
  "foldl (\<lambda>st s. unlessChanged s st) (Inl e) ss = Inl e"
  "foldl (\<lambda>st s. unlessChanged s st) (Inr (True, g)) ss = Inr (True, g)"
  by (induction ss) simp_all

lemma chain_firstHitE:
  "foldl (\<lambda>st s. unlessChanged s st) (Inr (False, g)) ss = firstHitE (\<lambda>s. s) ss g"
proof (induction ss arbitrary: g)
  case Nil
  then show ?case by simp
next
  case (Cons s rest)
  show ?case
  proof (cases "s g")
    case (Inl e)
    then show ?thesis by (simp add: chain_stuck)
  next
    case (Inr res)
    obtain ch g' where res: "res = (ch, g')" by (cases res)
    show ?thesis using Inr res Cons.IH[of g'] by (cases ch) (simp_all add: chain_stuck)
  qed
qed

lemma logicalPass_firstChange: "logicalPass opts game = firstChange (strategyOrder opts) game"
proof -
  have "logicalPass opts game = foldl (\<lambda>st s. unlessChanged s st) (Inr (False, game)) (strategyOrder opts)"
    by (simp add: logicalPass_def strategyOrder_def)
  then show ?thesis by (simp add: chain_firstHitE firstChange_def)
qed

lemma strategyOrder_ok: "s \<in> set (strategyOrder opts) \<Longrightarrow> okStepE s"
  by (auto simp: strategyOrder_def intro: noError_ok applyNakedSingles_ok applyNakedPairs_ok
      applyHiddenSingles_ok applyNakedTriples_ok applyHiddenPairs_ok applyBoxLineReduction_ok
      applyXWing_ok)

lemma logicalPass_ok: "okStepE (logicalPass opts)"
proof -
  have "okStepE (firstHitE (\<lambda>s. s) (strategyOrder opts))"
    by (rule firstHitE_ok) (rule strategyOrder_ok)
  then show ?thesis by (simp add: okStepE_def logicalPass_firstChange firstChange_def)
qed

lemma loop_total:
  "goodGame game \<Longrightarrow>
   \<exists>n final. afterPasses opts n game = Some final
     \<and> logicalPass opts final = Inr (False, final)
     \<and> applyLogicalStrategies opts game = Some (Inr final)
     \<and> stepOk game (0 < n, final)"
proof (induction "workLeft game" arbitrary: game rule: less_induct)
  case less
  obtain ch g1 where pass: "logicalPass opts game = Inr (ch, g1)" and ok: "stepOk game (ch, g1)"
    using okStepE_D[OF logicalPass_ok less.prems, of opts] by auto
  show ?case
  proof (cases ch)
    case False
    then have same: "g1 = game" using ok by (simp add: stepOk_False)
    have "afterPasses opts 0 game = Some game" by simp
    moreover have "logicalPass opts game = Inr (False, game)" using pass False same by simp
    moreover have "applyLogicalStrategies opts game = Some (Inr game)"
      using pass False same by (subst applyLogicalStrategies.simps) simp
    moreover have "stepOk game (0 < (0::nat), game)" using less.prems by (simp add: stepOk_refl)
    ultimately show ?thesis by blast
  next
    case True
    then have less': "workLeft g1 < workLeft game" and g1: "goodGame g1"
      using ok by (simp_all add: stepOk_def)
    from less.hyps[OF less' g1]
    obtain n final where ih: "afterPasses opts n g1 = Some final"
      "logicalPass opts final = Inr (False, final)"
      "applyLogicalStrategies opts g1 = Some (Inr final)"
      "stepOk g1 (0 < n, final)" by blast
    have "afterPasses opts (Suc n) game = Some final" using pass True ih(1) by simp
    moreover have "applyLogicalStrategies opts game = Some (Inr final)"
      using pass True ih(3) by (subst applyLogicalStrategies.simps) simp
    moreover have "stepOk game (0 < Suc n, final)"
      using stepOk_trans[OF ok ih(4)] True by simp
    ultimately show ?thesis using ih(2) by blast
  qed
qed

section \<open>Backtracking\<close>

lemma findEmptyCell_Some:
  "findEmptyCell brd = Some (row, col) \<Longrightarrow> row < 9 \<and> col < 9 \<and> cellAt brd row col = Num 0"
proof -
  assume a: "findEmptyCell brd = Some (row, col)"
  let ?f = "filter (\<lambda>(row, col). strictEq (cellAt brd row col) (Num 0)) allCells"
  from a obtain rest where "?f = (row, col) # rest"
    by (auto simp: findEmptyCell_def split: list.splits)
  then have "(row, col) \<in> set ?f" by simp
  then show ?thesis by (auto simp: set_allCells)
qed

lemma findEmptyCell_None: "findEmptyCell brd = None \<Longrightarrow> emptyCells brd = {}"
proof -
  assume a: "findEmptyCell brd = None"
  then have "filter (\<lambda>(row, col). strictEq (cellAt brd row col) (Num 0)) allCells = []"
    by (auto simp: findEmptyCell_def split: list.splits)
  then have "\<forall>cell \<in> set allCells. \<not> (case cell of (row, col) \<Rightarrow> strictEq (cellAt brd row col) (Num 0))"
    by (simp add: filter_empty_conv)
  then show ?thesis by (auto simp: emptyCells_def set_allCells)
qed

lemma isValid_nonzero:
  "col < 9 \<Longrightarrow> cellAt brd row col = Num 0 \<Longrightarrow> isValid brd row col digit \<Longrightarrow> digit \<noteq> Num 0"
proof
  assume a: "col < 9" "cellAt brd row col = Num 0" "isValid brd row col digit" "digit = Num 0"
  have "col \<in> set [0..<9]" using a(1) by simp
  moreover have "strictEq (cellAt brd row col) digit" using a(2,4) by simp
  ultimately have "\<exists>c \<in> set [0..<9]. strictEq (cellAt brd row c) digit" by blast
  then show False using a(3) unfolding isValid_def by blast
qed

lemma gridSet_restore:
  assumes "is9x9 brd" "row < 9" "col < 9" "cellAt brd row col = v"
  shows "gridSet (gridSet brd row col d) row col v = brd"
  using assms by (intro grid_eqI) (auto simp: is9x9_gridSet cellAt_gridSet)

lemma copy_cells:
  assumes "is9x9 new" "set cells \<subseteq> set allCells" "is9x9 cs"
  shows "is9x9 (foldl (\<lambda>cs (r, c). gridSet cs r c (cellAt new r c)) cs cells)
    \<and> (\<forall>r c. r < 9 \<longrightarrow> c < 9 \<longrightarrow>
          cellAt (foldl (\<lambda>cs (r, c). gridSet cs r c (cellAt new r c)) cs cells) r c
          = (if (r, c) \<in> set cells then cellAt new r c else cellAt cs r c))"
  using assms(2,3)
proof (induction cells arbitrary: cs)
  case Nil
  then show ?case by simp
next
  case (Cons cell rest)
  obtain r0 c0 where cell: "cell = (r0, c0)" by (cases cell)
  have rc: "r0 < 9" "c0 < 9" using Cons.prems(1) cell by (auto simp: set_allCells)
  let ?cs1 = "gridSet cs r0 c0 (cellAt new r0 c0)"
  have 9: "is9x9 ?cs1" using Cons.prems(2) by (rule is9x9_gridSet)
  have rest: "set rest \<subseteq> set allCells" using Cons.prems(1) by simp
  from Cons.IH[OF rest 9] show ?case
    using cell rc Cons.prems(2) by (auto simp: cellAt_gridSet)
qed

lemma rebuildAllCandidates_eq:
  assumes "is9x9 (candidates game)"
  shows "rebuildAllCandidates game = game\<lparr>candidates := buildCandidates (board game)\<rparr>"
proof -
  let ?new = "buildCandidates (board game)"
  let ?res = "foldl (\<lambda>cs (r, c). gridSet cs r c (cellAt ?new r c)) (candidates game) allCells"
  have n9: "is9x9 ?new" using buildCandidates_props[of "board game"] by (simp add: wfCands_9x9)
  from copy_cells[OF n9 subset_refl assms]
  have "is9x9 ?res" "\<And>r c. r < 9 \<Longrightarrow> c < 9 \<Longrightarrow> cellAt ?res r c = cellAt ?new r c"
    by (auto simp: set_allCells)
  then have "?res = ?new" using n9 by (intro grid_eqI) auto
  then show ?thesis by (simp add: rebuildAllCandidates_def Let_def)
qed

text \<open>
  A failed search leaves the board as it found it; with enough fuel the search returns.
\<close>

lemma backtrack_tryDigits_props:
  "(is9x9 (board game) \<longrightarrow> wfCands (candidates game) \<longrightarrow>
      (card (emptyCells (board game)) < fuel \<longrightarrow> backtrack fuel game \<noteq> None)
      \<and> (\<forall>game'. backtrack fuel game = Some (False, game') \<longrightarrow>
            board game' = board game \<and> wfCands (candidates game')
            \<and> (candidates game' = candidates game \<or> candidates game' = buildCandidates (board game))))"
  "(is9x9 (board g) \<longrightarrow> wfCands (candidates g) \<longrightarrow> row < 9 \<longrightarrow> col < 9 \<longrightarrow>
      cellAt (board g) row col = Num 0 \<longrightarrow>
      (card (emptyCells (board g)) \<le> fuel' \<longrightarrow> tryDigits fuel' row col digits g \<noteq> None)
      \<and> (\<forall>g'. tryDigits fuel' row col digits g = Some (False, g') \<longrightarrow>
            board g' = board g \<and> wfCands (candidates g')
            \<and> (candidates g' = candidates g \<or> candidates g' = buildCandidates (board g))))"
proof (induction fuel game and fuel' row col digits g rule: backtrack_tryDigits.induct)
  case (1 game)
  then show ?case by simp
next
  case (2 fuel game)
  show ?case
  proof (intro impI)
    assume b9: "is9x9 (board game)" and wfc: "wfCands (candidates game)"
    show "(card (emptyCells (board game)) < Suc fuel \<longrightarrow> backtrack (Suc fuel) game \<noteq> None)
      \<and> (\<forall>game'. backtrack (Suc fuel) game = Some (False, game') \<longrightarrow>
            board game' = board game \<and> wfCands (candidates game')
            \<and> (candidates game' = candidates game \<or> candidates game' = buildCandidates (board game)))"
    proof (cases "findEmptyCell (board game)")
      case None
      then show ?thesis by simp
    next
      case (Some cell)
      obtain row col where cell: "cell = (row, col)" by (cases cell)
      have rc: "row < 9" "col < 9" "cellAt (board game) row col = Num 0"
        using findEmptyCell_Some[of "board game" row col] Some cell by auto
      from "2.IH"[OF Some cell[symmetric], rule_format, OF b9 wfc rc]
      have ih: "card (emptyCells (board game)) \<le> fuel \<longrightarrow>
            tryDigits fuel row col (cellAt (candidates game) row col) game \<noteq> None"
        "\<forall>g'. tryDigits fuel row col (cellAt (candidates game) row col) game = Some (False, g') \<longrightarrow>
            board g' = board game \<and> wfCands (candidates g')
            \<and> (candidates g' = candidates game \<or> candidates g' = buildCandidates (board game))"
        by blast+
      have eq: "backtrack (Suc fuel) game = tryDigits fuel row col (cellAt (candidates game) row col) game"
        using Some cell by simp
      show ?thesis unfolding eq less_Suc_eq_le using ih by blast
    qed
  qed
next
  case (3 fuel row col game)
  then show ?case by simp
next
  case (4 fuel row col digit rest game)
  show ?case
  proof (intro impI)
    assume b9: "is9x9 (board game)" and wfc: "wfCands (candidates game)"
      and rc: "row < 9" "col < 9" and empty: "cellAt (board game) row col = Num 0"
    let ?goal = "(card (emptyCells (board game)) \<le> fuel \<longrightarrow> tryDigits fuel row col (digit # rest) game \<noteq> None)
      \<and> (\<forall>g'. tryDigits fuel row col (digit # rest) game = Some (False, g') \<longrightarrow>
            board g' = board game \<and> wfCands (candidates g')
            \<and> (candidates g' = candidates game \<or> candidates g' = buildCandidates (board game)))"
    show ?goal
    proof (cases "isValid (board game) row col digit")
      case False
      have eq: "tryDigits fuel row col (digit # rest) game = tryDigits fuel row col rest game"
        using False by simp
      from "4.IH"(3)[OF False, rule_format, OF b9 wfc rc empty] show ?thesis unfolding eq by blast
    next
      case True
      define placed where "placed = placeTrial game row col digit"
      have nz: "digit \<noteq> Num 0" using isValid_nonzero[OF rc(2) empty True] .
      have p9: "is9x9 (board placed)" using b9 by (simp add: placed_def placeTrial_def is9x9_gridSet)
      have "wfCands (gridSet (candidates game) row col (newSet [digit]))"
        using wfc rc by (auto intro!: wfCandsI simp: is9x9_gridSet wfCands_9x9 cellAt_gridSet wfCands_cell)
      then have pwf: "wfCands (candidates placed)"
        using eliminateFromPeers_props(1)[OF _ rc] by (simp add: placed_def placeTrial_def)
      have pcard: "card (emptyCells (board placed)) < card (emptyCells (board game))"
      proof -
        have "emptyCells (board placed) = emptyCells (board game) - {(row, col)}"
          using emptyCells_gridSet[OF b9 rc nz] by (simp add: placed_def placeTrial_def)
        moreover have "(row, col) \<in> emptyCells (board game)" using rc empty by (simp add: emptyCells_def)
        ultimately show ?thesis
          using card_Diff1_less[OF finite_emptyCells, of "(row, col)" "board game"] by simp
      qed
      note ih1 = "4.IH"(1)[OF True, folded placed_def, rule_format, OF p9 pwf]
      have rec: "card (emptyCells (board placed)) < fuel \<longrightarrow> backtrack fuel placed \<noteq> None"
        "\<forall>game'. backtrack fuel placed = Some (False, game') \<longrightarrow>
            board game' = board placed \<and> wfCands (candidates game')"
        using ih1 by blast+
      have unfold: "tryDigits fuel row col (digit # rest) game =
          (case backtrack fuel placed of
              None \<Rightarrow> None
            | Some res \<Rightarrow>
                if fst res then Some (True, snd res)
                else tryDigits fuel row col rest
                  (undoTrial (snd res) row col (newSet (cellAt (candidates game) row col))))"
        using True unfolding placed_def by simp
      show ?thesis
      proof (cases "backtrack fuel placed")
        case None
        then have "\<not> card (emptyCells (board placed)) < fuel" using rec(1) by auto
        then have "\<not> card (emptyCells (board game)) \<le> fuel" using pcard by simp
        then show ?thesis using None unfold by simp
      next
        case (Some res)
        obtain ok g1 where res: "res = (ok, g1)" by (cases res)
        show ?thesis
        proof (cases ok)
          case True
          then show ?thesis using Some res unfold by simp
        next
          case False
          have f: "board g1 = board placed" "wfCands (candidates g1)"
            using rec(2) Some res False by auto
          define reverted where "reverted = g1\<lparr>board := gridSet (board g1) row col (Num 0),
                candidates := gridSet (candidates g1) row col (newSet (cellAt (candidates game) row col))\<rparr>"
          define next_game where "next_game = undoTrial g1 row col (newSet (cellAt (candidates game) row col))"
          have nr: "next_game = rebuildAllCandidates reverted"
            by (simp add: next_game_def reverted_def undoTrial_def)
          have rb: "board reverted = board game"
            using f(1) gridSet_restore[OF b9 rc empty, of digit]
            by (simp add: reverted_def placed_def placeTrial_def)
          have r9: "is9x9 (candidates reverted)"
            using f(2) by (simp add: reverted_def is9x9_gridSet wfCands_9x9)
          have ng: "next_game = reverted\<lparr>candidates := buildCandidates (board game)\<rparr>"
            using rebuildAllCandidates_eq[OF r9] rb nr by simp
          have nb: "board next_game = board game" "candidates next_game = buildCandidates (board game)"
            using ng rb by simp_all
          have nf: "\<not> fst res" using res False by simp
          note ih2 = "4.IH"(2)[OF True Some[unfolded placed_def] nf, unfolded res snd_conv,
               folded next_game_def]
          have step: "tryDigits fuel row col (digit # rest) game = tryDigits fuel row col rest next_game"
            using unfold Some res False by (simp add: next_game_def)
          have cont: "(card (emptyCells (board next_game)) \<le> fuel \<longrightarrow> tryDigits fuel row col rest next_game \<noteq> None)
              \<and> (\<forall>g'. tryDigits fuel row col rest next_game = Some (False, g') \<longrightarrow>
                    board g' = board next_game \<and> wfCands (candidates g')
                    \<and> (candidates g' = candidates next_game \<or> candidates g' = buildCandidates (board next_game)))"
            by (rule ih2[rule_format]) (simp_all add: nb buildCandidates_props[THEN conjunct1] b9 rc empty)
          show ?thesis unfolding step using cont by (simp only: nb) blast
        qed
      qed
    qed
  qed
qed

lemma collect_Inr:
  "collect xs = Inr vs \<Longrightarrow> length vs = length xs \<and> (\<forall>i < length xs. xs ! i = Inr (vs ! i))"
proof (induction xs arbitrary: vs rule: collect.induct)
  case 1
  then show ?case by simp
next
  case (2 e uu)
  then show ?case by simp
next
  case (3 v rest)
  then obtain vs' where r: "collect rest = Inr vs'" "vs = v # vs'" by (auto split: sum.splits)
  from "3.IH"[OF r(1)] show ?case using r(2) by (auto simp: nth_Cons split: nat.splits)
qed

lemma stringToBoard_9x9: "stringToBoard str = Inr m \<Longrightarrow> is9x9 m"
proof -
  assume a: "stringToBoard str = Inr m"
  let ?rows = "map (\<lambda>row. collect (map (\<lambda>col. parseCell str (row * 9 + col)) [0..<9])) [0..<9]"
  have c: "collect ?rows = Inr m" using a by (auto simp: stringToBoard_def split: if_splits)
  from collect_Inr[OF c] have len: "length m = 9" and rows: "\<forall>i < 9. ?rows ! i = Inr (m ! i)" by auto
  have "\<forall>row \<in> set m. length row = 9"
  proof
    fix row assume "row \<in> set m"
    then obtain i where i: "i < 9" "row = m ! i" using len by (auto simp: in_set_conv_nth)
    then have "collect (map (\<lambda>col. parseCell str (i * 9 + col)) [0..<9]) = Inr row"
      using rows by simp
    from collect_Inr[OF this] show "length row = 9" by simp
  qed
  then show ?thesis using len by (simp add: is9x9_def)
qed

lemma solve_total:
  assumes "validInput sb"
  shows "(\<exists>e. solveSudoku sb opts = Some (Inl e) \<and> (\<exists>str. sb = PuzzleString str \<and> stringToBoard str = Inl e))
    \<or> (\<exists>m n final. (sb = Matrix m \<or> (\<exists>str. sb = PuzzleString str \<and> stringToBoard str = Inr m))
          \<and> is9x9 m
          \<and> afterPasses opts n (initialGame m) = Some final
          \<and> logicalPass opts final = Inr (False, final)
          \<and> solveSudoku sb opts = Some (Inr final)
          \<and> stepOk (initialGame m) (0 < n, final))"
proof (cases sb)
  case (Matrix m)
  then have m: "is9x9 m" using assms by (simp add: validInput_def)
  from loop_total[OF initialGame_good[OF m], of opts] show ?thesis
    using Matrix m by (auto simp: solveSudoku_def)
next
  case (PuzzleString str)
  show ?thesis
  proof (cases "stringToBoard str")
    case (Inl e)
    then show ?thesis using PuzzleString by (simp add: solveSudoku_def)
  next
    case (Inr m)
    then have m: "is9x9 m" by (rule stringToBoard_9x9)
    from loop_total[OF initialGame_good[OF m], of opts] show ?thesis
      using PuzzleString Inr m by (auto simp: solveSudoku_def)
  qed
qed

lemma rect9: "is9x9 rectBoard"
  by (simp add: is9x9_def rectBoard_def)

section \<open>Parsing\<close>

lemma parseCell_Inr: "\<exists>v. parseCell str i = Inr v"
proof (cases "str ! i \<in> set ''0123456789''")
  case True
  then show ?thesis by (auto simp: parseCell_def parseInt_def Let_def)
next
  case False
  then show ?thesis by (auto simp: parseCell_def parseInt_def Let_def)
qed

lemma collect_all_Inr: "(\<forall>x \<in> set xs. \<exists>v. x = Inr v) \<Longrightarrow> \<exists>vs. collect xs = Inr vs"
proof (induction xs rule: collect.induct)
  case 1
  then show ?case by simp
next
  case (2 e uu)
  then show ?case by simp
next
  case (3 v rest)
  then show ?case by auto
qed

lemma stringToBoard_accepts: "length str = 81 \<Longrightarrow> \<exists>m. stringToBoard str = Inr m"
proof -
  assume len: "length str = 81"
  have row: "\<And>row. \<exists>vs. collect (map (\<lambda>col. parseCell str (row * 9 + col)) [0..<9]) = Inr vs"
    using parseCell_Inr by (intro collect_all_Inr) auto
  have "\<exists>m. collect (map (\<lambda>row. collect (map (\<lambda>col. parseCell str (row * 9 + col)) [0..<9])) [0..<9]) = Inr m"
    using row by (intro collect_all_Inr) auto
  then show ?thesis using len by (simp add: stringToBoard_def)
qed

lemma stringToBoard_length: "length str \<noteq> 81 \<Longrightarrow> stringToBoard str = Inl LengthError"
  by (simp add: stringToBoard_def)

section \<open>The example boards\<close>

lemma dead9: "is9x9 deadEndBoard"
  by (simp add: is9x9_def deadEndBoard_def)

lemma odd9: "is9x9 oddBoard"
  by (simp add: is9x9_def oddBoard_def)

section \<open>The claims\<close>

section \<open>A search that fails\<close>

lemma dead_false_flag:
  "(case backtrack 3 deadEndGame of Some (False, g) \<Rightarrow> True | _ \<Rightarrow> False)"
  by code_simp

lemma dead_false: "\<exists>g. backtrack 3 deadEndGame = Some (False, g)"
  using dead_false_flag by (auto split: option.splits bool.splits)

lemma dead_wf: "is9x9 (board deadEndGame) \<and> wfCands (candidates deadEndGame)"
  using dead9 buildCandidates_props[of deadEndBoard] by (simp add: deadEndGame_def)

text \<open>
  Claim C2: \<open>stringToBoard\<close> raises an error for every string whose length is not 81
  and for every string of 81 characters with a character other than \<open>.\<close>, \<open>0\<close>
  and \<open>1\<close> to \<open>9\<close>. The length check does that (\<open>stringToBoard_length\<close>), the
  character check does not: \<open>parseInt\<close> gives \<open>NaN\<close> for such a character, both
  comparisons \<open>digit < 1\<close> and \<open>digit > 9\<close> are false for \<open>NaN\<close>, and the value is
  pushed. A string of 81 letters \<open>a\<close> is parsed into a board of \<open>NaN\<close>.
\<close>

theorem stringToBoard_accepts_invalid_characters:
  "stringToBoard (replicate 81 CHR ''a'') = Inr (replicate 9 (replicate 9 NaN))"
  by code_simp

text \<open>
  Claim C3: one iteration of the scheduler tries Naked Singles, Naked Pairs, Hidden
  Singles, Naked Triples, Hidden Pairs, Box-Line Reduction and X-Wing in that order and
  ends at the first strategy that reports a change; the next iteration starts again
  with Naked Singles; the loop ends exactly when a whole pass reports no change: there
  are \<open>n\<close> passes that each report a change, then one that reports none, and the session
  after it is what the loop returns.
\<close>

theorem scheduler_order_and_fixpoint:
  assumes "goodGame game"
  shows "logicalPass opts game = firstChange (strategyOrder opts) game
    \<and> (\<exists>n final. afterPasses opts n game = Some final
          \<and> logicalPass opts final = Inr (False, final)
          \<and> applyLogicalStrategies opts game = Some (Inr final))"
  using loop_total[OF assms, of opts] logicalPass_firstChange[of opts game] by blast

theorem scheduler_order_and_fixpoint_witness:
  "goodGame (initialGame rectBoard)
   \<and> logicalPass None (initialGame rectBoard)
       = firstChange (strategyOrder None) (initialGame rectBoard)
   \<and> (\<exists>n final. afterPasses None n (initialGame rectBoard) = Some final
          \<and> logicalPass None final = Inr (False, final)
          \<and> applyLogicalStrategies None (initialGame rectBoard) = Some (Inr final))"
  using scheduler_order_and_fixpoint[OF initialGame_good[OF rect9], of None]
    initialGame_good[OF rect9] by simp

text \<open>
  Claim C9: when \<open>backtrack\<close> returns false, the board is what it was at entry: every
  trial placement of the call and of its recursive calls has been put back to 0. The
  candidate grid is either untouched or the grid rebuilt from that board. The search
  does return: a recursion depth above the number of empty cells is never exceeded.
\<close>

theorem backtrack_false_restores_board:
  assumes "is9x9 (board game)" and "wfCands (candidates game)"
  shows "(card (emptyCells (board game)) < fuel \<longrightarrow> backtrack fuel game \<noteq> None)
    \<and> (\<forall>game'. backtrack fuel game = Some (False, game')
          \<longrightarrow> board game' = board game
              \<and> (candidates game' = candidates game
                   \<or> candidates game' = buildCandidates (board game)))"
  using backtrack_tryDigits_props(1)[of game fuel] assms by blast

theorem backtrack_false_restores_board_witness:
  "is9x9 (board deadEndGame) \<and> wfCands (candidates deadEndGame)
   \<and> (\<exists>game'. backtrack 3 deadEndGame = Some (False, game')
         \<and> board game' = board deadEndGame
         \<and> (candidates game' = candidates deadEndGame
              \<or> candidates game' = buildCandidates (board deadEndGame)))"
proof -
  from dead_false obtain g where g: "backtrack 3 deadEndGame = Some (False, g)" by blast
  from dead_wf have a: "is9x9 (board deadEndGame)" and b: "wfCands (candidates deadEndGame)"
    by simp_all
  from backtrack_false_restores_board[OF a b, of 3] g
  have "board g = board deadEndGame
    \<and> (candidates g = candidates deadEndGame \<or> candidates g = buildCandidates (board deadEndGame))"
    by blast
  then show ?thesis using a b g by blast
qed

text \<open>
  Claim C10: \<open>solveSudoku\<close> does not validate a matrix. For every 9x9 matrix of
  numbers, also one with entries that are no digits, the call runs to its end and
  returns a session; an error can only come from parsing a string.
\<close>

theorem solveSudoku_matrix_returns:
  assumes "is9x9 m"
  shows "(\<exists>game. solveSudoku (Matrix m) opts = Some (Inr game))
    \<and> (\<forall>startingBoard e. validInput startingBoard
          \<longrightarrow> solveSudoku startingBoard opts = Some (Inl e)
          \<longrightarrow> (\<exists>str. startingBoard = PuzzleString str \<and> stringToBoard str = Inl e))"
proof -
  have "validInput (Matrix m)" using assms by (simp add: validInput_def)
  from solve_total[OF this, of opts] have a: "\<exists>game. solveSudoku (Matrix m) opts = Some (Inr game)"
    by auto
  have b: "\<And>sb e. validInput sb \<Longrightarrow> solveSudoku sb opts = Some (Inl e)
      \<Longrightarrow> \<exists>str. sb = PuzzleString str \<and> stringToBoard str = Inl e"
  proof -
    fix sb e assume "validInput sb" "solveSudoku sb opts = Some (Inl e)"
    then show "\<exists>str. sb = PuzzleString str \<and> stringToBoard str = Inl e"
      using solve_total[of sb opts] by auto
  qed
  show ?thesis using a b by blast
qed

theorem solveSudoku_matrix_returns_witness:
  "is9x9 oddBoard \<and> (\<exists>game. solveSudoku (Matrix oddBoard) None = Some (Inr game))"
  using solveSudoku_matrix_returns[OF odd9, of None] odd9 by simp

end
